theory Spec2Isabelle
  imports Main "HOL-Library.Word"
begin

unbundle bit_operations_syntax

section \<open>Machine integers, byte buffers and return codes\<close>

type_synonym u8 = "8 word"
type_synonym u16 = "16 word"
type_synonym u32 = "32 word"
type_synonym u64 = "64 word"

text \<open>Return codes of \<^verbatim>\<open>api/error.h\<close>. The pager returns the literals 0 and -1.\<close>

abbreviation (input) AMIDB_OK :: int where "AMIDB_OK \<equiv> 0"
abbreviation (input) AMIDB_ERROR :: int where "AMIDB_ERROR \<equiv> - 1"
abbreviation (input) AMIDB_BUSY :: int where "AMIDB_BUSY \<equiv> - 2"
abbreviation (input) AMIDB_NOMEM :: int where "AMIDB_NOMEM \<equiv> - 6"
abbreviation (input) AMIDB_IOERR :: int where "AMIDB_IOERR \<equiv> - 7"
abbreviation (input) AMIDB_FULL :: int where "AMIDB_FULL \<equiv> - 8"

text \<open>
  A buffer is a list of bytes. \<open>write_at\<close> is \<^verbatim>\<open>memcpy(buf + off, xs, length xs)\<close> into a
  buffer that is long enough; when the target is a file, positions past the end are
  filled with zero bytes first.
\<close>

definition write_at :: "u8 list \<Rightarrow> nat \<Rightarrow> u8 list \<Rightarrow> u8 list" where
  "write_at buf off xs =
     take off (buf @ replicate (off - length buf) 0) @ xs @ drop (off + length xs) buf"

definition slice :: "u8 list \<Rightarrow> nat \<Rightarrow> nat \<Rightarrow> u8 list" where
  "slice buf off n = take n (drop off buf)"

subsection \<open>util/endian.h: little-endian accessors\<close>

definition put_u16 :: "u16 \<Rightarrow> u8 list" where
  "put_u16 v = [ucast v, ucast (drop_bit 8 v)]"

definition get_u16 :: "u8 list \<Rightarrow> u16" where
  "get_u16 p = ucast (p ! 0) OR push_bit 8 (ucast (p ! 1))"

definition put_u32 :: "u32 \<Rightarrow> u8 list" where
  "put_u32 v = [ucast v, ucast (drop_bit 8 v), ucast (drop_bit 16 v), ucast (drop_bit 24 v)]"

definition get_u32 :: "u8 list \<Rightarrow> u32" where
  "get_u32 p = ucast (p ! 0) OR push_bit 8 (ucast (p ! 1))
                 OR push_bit 16 (ucast (p ! 2)) OR push_bit 24 (ucast (p ! 3))"

subsection \<open>util/crc32.c\<close>

text \<open>
  \<open>crc32_table i\<close> is the entry \<^verbatim>\<open>crc32_table[i]\<close> that \<^verbatim>\<open>crc32_init\<close> computes with its
  inner loop of eight steps; the table is only ever indexed with a value masked by 0xFF.
\<close>

definition crc32_bit :: "u32 \<Rightarrow> u32" where
  "crc32_bit c = (if c AND 1 \<noteq> 0 then 0xEDB88320 XOR drop_bit 1 c else drop_bit 1 c)"

fun crc32_table_loop :: "nat \<Rightarrow> u32 \<Rightarrow> u32" where
  "crc32_table_loop 0 c = c"
| "crc32_table_loop (Suc j) c = crc32_table_loop j (crc32_bit c)"

definition crc32_table :: "u32 \<Rightarrow> u32" where
  "crc32_table i = crc32_table_loop 8 i"

definition crc32_step :: "u8 \<Rightarrow> u32 \<Rightarrow> u32" where
  "crc32_step b crc = crc32_table ((crc XOR ucast b) AND 0xFF) XOR drop_bit 8 crc"

text \<open>\<^verbatim>\<open>crc32_update(crc, data, length)\<close>; the list holds the \<^verbatim>\<open>length\<close> bytes read.\<close>

definition crc32_update :: "u32 \<Rightarrow> u8 list \<Rightarrow> u32" where
  "crc32_update crc data = fold crc32_step data (crc XOR 0xFFFFFFFF) XOR 0xFFFFFFFF"

definition crc32_compute :: "u8 list \<Rightarrow> u32" where
  "crc32_compute data = crc32_update 0 data"

section \<open>os/file.h: the backing file\<close>

text \<open>
  The file is its contents, the position of the handle and a fault plan: every
  \<^verbatim>\<open>file_read\<close> and \<^verbatim>\<open>file_write\<close> consumes one entry of the plan, and the call fails
  (returns -1, transferring nothing) when the entry is \<open>True\<close>. An exhausted plan means
  that the device works. \<^verbatim>\<open>file_seek\<close> fails on a negative offset and leaves the position
  alone then; \<^verbatim>\<open>file_sync\<close> always returns 0, as in \<^verbatim>\<open>file_amiga.c\<close>.
\<close>

record amidb_file =
  f_bytes :: "u8 list"
  f_pos :: nat
  f_faults :: "bool list"

definition file_fault :: "amidb_file \<Rightarrow> bool" where
  "file_fault f = (case f_faults f of [] \<Rightarrow> False | b # _ \<Rightarrow> b)"

definition file_tick :: "amidb_file \<Rightarrow> amidb_file" where
  "file_tick f = f\<lparr>f_faults := tl (f_faults f)\<rparr>"

definition file_seek :: "amidb_file \<Rightarrow> u32 \<Rightarrow> int \<times> amidb_file" where
  "file_seek f off = (if sint off < 0 then (- 1, f) else (0, f\<lparr>f_pos := unat off\<rparr>))"

definition file_seek_end :: "amidb_file \<Rightarrow> int \<times> amidb_file" where
  "file_seek_end f = (0, f\<lparr>f_pos := length (f_bytes f)\<rparr>)"

definition file_read :: "amidb_file \<Rightarrow> nat \<Rightarrow> int \<times> u8 list \<times> amidb_file" where
  "file_read f len =
     (if file_fault f then (- 1, [], file_tick f)
      else let got = slice (f_bytes f) (f_pos f) len
           in (int (length got), got, (file_tick f)\<lparr>f_pos := f_pos f + length got\<rparr>))"

definition file_write :: "amidb_file \<Rightarrow> u8 list \<Rightarrow> int \<times> amidb_file" where
  "file_write f xs =
     (if file_fault f then (- 1, file_tick f)
      else (int (length xs),
            (file_tick f)\<lparr>f_bytes := write_at (f_bytes f) (f_pos f) xs,
                           f_pos := f_pos f + length xs\<rparr>))"

definition file_size :: "amidb_file \<Rightarrow> int" where
  "file_size f = int (length (f_bytes f))"

section \<open>storage/pager.c\<close>

abbreviation (input) AMIDB_PAGE_SIZE :: nat where "AMIDB_PAGE_SIZE \<equiv> 4096"
abbreviation (input) AMIDB_MAGIC :: u32 where "AMIDB_MAGIC \<equiv> 0x416D6944"
abbreviation (input) AMIDB_VERSION :: u32 where "AMIDB_VERSION \<equiv> 1"
abbreviation (input) AMIDB_MAX_PAGES :: u32 where "AMIDB_MAX_PAGES \<equiv> 4096"
abbreviation (input) PAGE_TYPE_FREE :: u8 where "PAGE_TYPE_FREE \<equiv> 0"
abbreviation (input) PAGE_TYPE_BTREE :: u8 where "PAGE_TYPE_BTREE \<equiv> 2"
abbreviation (input) DB_FLAG_DIRTY :: u32 where "DB_FLAG_DIRTY \<equiv> 1"

record amidb_file_header =
  magic :: u32
  version :: u32
  page_size :: u32
  page_count :: u32
  first_free_page :: u32
  root_page :: u32
  wal_offset :: u32
  flags :: u32
  wal_head :: u32
  wal_tail :: u32
  catalog_root :: u32

text \<open>
  The pager handle. \<^verbatim>\<open>file_path\<close> and the \<^verbatim>\<open>wal\<close>/\<^verbatim>\<open>txn\<close> back pointers (always NULL in
  \<^verbatim>\<open>pager.c\<close>) carry no behaviour and are left out. \<^verbatim>\<open>mem_alloc\<close> is taken to succeed.
\<close>

record amidb_pager =
  file_handle :: amidb_file
  header :: amidb_file_header
  bitmap :: "u8 list"
  bitmap_size :: nat
  read_only :: bool

definition bitmap_set :: "u8 list \<Rightarrow> u32 \<Rightarrow> u8 list" where
  "bitmap_set bm n =
     bm[unat n div 8 := (bm ! (unat n div 8)) OR push_bit (unat n mod 8) 1]"

definition bitmap_clear :: "u8 list \<Rightarrow> u32 \<Rightarrow> u8 list" where
  "bitmap_clear bm n =
     bm[unat n div 8 := (bm ! (unat n div 8)) AND NOT (push_bit (unat n mod 8) 1)]"

definition bitmap_test :: "u8 list \<Rightarrow> u32 \<Rightarrow> bool" where
  "bitmap_test bm n = ((bm ! (unat n div 8)) AND push_bit (unat n mod 8) 1 \<noteq> 0)"

definition init_file_header :: amidb_file_header where
  "init_file_header =
     \<lparr>magic = AMIDB_MAGIC, version = AMIDB_VERSION, page_size = 4096, page_count = 1,
      first_free_page = 0, root_page = 0, wal_offset = 0, flags = 0, wal_head = 0,
      wal_tail = 0, catalog_root = 0\<rparr>"

definition serialize_header :: "amidb_file_header \<Rightarrow> u8 list" where
  "serialize_header hdr =
     put_u32 (magic hdr) @ put_u32 (version hdr) @ put_u32 (page_size hdr)
     @ put_u32 (page_count hdr) @ put_u32 (first_free_page hdr) @ put_u32 (root_page hdr)
     @ put_u32 (wal_offset hdr) @ put_u32 (flags hdr) @ put_u32 (wal_head hdr)
     @ put_u32 (wal_tail hdr) @ put_u32 (catalog_root hdr) @ replicate 20 0"

definition deserialize_header :: "u8 list \<Rightarrow> amidb_file_header" where
  "deserialize_header buf =
     \<lparr>magic = get_u32 (drop 0 buf), version = get_u32 (drop 4 buf),
      page_size = get_u32 (drop 8 buf), page_count = get_u32 (drop 12 buf),
      first_free_page = get_u32 (drop 16 buf), root_page = get_u32 (drop 20 buf),
      wal_offset = get_u32 (drop 24 buf), flags = get_u32 (drop 28 buf),
      wal_head = get_u32 (drop 32 buf), wal_tail = get_u32 (drop 36 buf),
      catalog_root = get_u32 (drop 40 buf)\<rparr>"

text \<open>
  The image of page 0 that every header update builds: a zeroed page buffer, the
  serialized header at offset 0 and \<^verbatim>\<open>bitmap_size\<close> bytes of the bitmap at offset 64.
\<close>

definition header_page :: "amidb_pager \<Rightarrow> u8 list" where
  "header_page p =
     write_at (write_at (replicate AMIDB_PAGE_SIZE 0) 0 (serialize_header (header p)))
       64 (take (bitmap_size p) (bitmap p))"

text \<open>\<^verbatim>\<open>pager_write_header\<close>\<close>

definition pager_write_header :: "amidb_pager \<Rightarrow> int \<times> amidb_pager" where
  "pager_write_header p =
     (if read_only p then (- 1, p)
      else let (_, f1) = file_seek (file_handle p) 0;
               (rc, f2) = file_write f1 (header_page p)
           in ((if rc = int AMIDB_PAGE_SIZE then 0 else - 1), p\<lparr>file_handle := f2\<rparr>))"

text \<open>
  The page that \<^verbatim>\<open>pager_write_page\<close> puts on disk: the caller's 4096 bytes with the page
  number stamped at offset 0 and the CRC32 of bytes 12..4095 at offset 8.
\<close>

definition stamp_page :: "u32 \<Rightarrow> u8 list \<Rightarrow> u8 list" where
  "stamp_page page_num page_data =
     (let b1 = write_at (take AMIDB_PAGE_SIZE page_data) 0 (put_u32 page_num)
      in write_at b1 8 (put_u32 (crc32_compute (drop 12 b1))))"

definition pager_write_page :: "amidb_pager \<Rightarrow> u32 \<Rightarrow> u8 list \<Rightarrow> int \<times> amidb_pager" where
  "pager_write_page p page_num page_data =
     (if read_only p \<or> page_num \<ge> AMIDB_MAX_PAGES then (- 1, p)
      else let (_, f1) = file_seek (file_handle p) (page_num * 4096);
               (rc, f2) = file_write f1 (stamp_page page_num page_data)
           in ((if rc = int AMIDB_PAGE_SIZE then 0 else - 1), p\<lparr>file_handle := f2\<rparr>))"

text \<open>
  \<^verbatim>\<open>pager_read_page\<close> reads into the caller's buffer \<open>buf\<close> (4096 bytes); the second
  component is that buffer afterwards, also when the call fails after the read.
\<close>

definition pager_read_page ::
  "amidb_pager \<Rightarrow> u32 \<Rightarrow> u8 list \<Rightarrow> int \<times> u8 list \<times> amidb_pager" where
  "pager_read_page p page_num buf =
     (if page_num \<ge> page_count (header p) then (- 1, buf, p)
      else let (_, f1) = file_seek (file_handle p) (page_num * 4096);
               (rc, got, f2) = file_read f1 AMIDB_PAGE_SIZE;
               buf' = write_at buf 0 got;
               p' = p\<lparr>file_handle := f2\<rparr>
           in if rc \<noteq> int AMIDB_PAGE_SIZE then (- 1, buf', p')
              else if get_u32 buf' \<noteq> page_num then (- 1, buf', p')
              else if get_u32 (drop 8 buf') \<noteq> crc32_compute (drop 12 buf') then (- 1, buf', p')
              else (0, buf', p'))"

definition pager_sync :: "amidb_pager \<Rightarrow> int" where
  "pager_sync p = 0"

text \<open>
  \<^verbatim>\<open>pager_allocate_page\<close>: the loop over \<^verbatim>\<open>i = 1 .. AMIDB_MAX_PAGES - 1\<close> that looks for
  the first clear bit, then the body run for that bit.
\<close>

function find_free_bit :: "u8 list \<Rightarrow> u32 \<Rightarrow> u32 option" where
  "find_free_bit bm i =
     (if i < AMIDB_MAX_PAGES
      then (if \<not> bitmap_test bm i then Some i else find_free_bit bm (i + 1))
      else None)"
  by pat_completeness auto
termination
  by (relation "measure (\<lambda>(bm, i). 4096 - unat i)")
     (auto simp: word_less_nat_alt unat_word_ariths)

declare find_free_bit.simps [simp del]

definition empty_page :: "u32 \<Rightarrow> u8 list" where
  "empty_page i =
     (let b0 = write_at (replicate AMIDB_PAGE_SIZE 0) 0 (put_u32 i);
          b1 = b0[4 := PAGE_TYPE_FREE]
      in write_at b1 8 (put_u32 (crc32_compute (drop 12 b1))))"

definition pager_allocate_page :: "amidb_pager \<Rightarrow> int \<times> u32 \<times> amidb_pager" where
  "pager_allocate_page p =
     (if read_only p then (- 1, 0, p)
      else case find_free_bit (bitmap p) 1 of
        None \<Rightarrow> (- 1, 0, p)
      | Some i \<Rightarrow>
          let p1 = p\<lparr>bitmap := bitmap_set (bitmap p) i\<rparr>;
              p2 = (if i \<ge> page_count (header p1)
                    then p1\<lparr>header := (header p1)\<lparr>page_count := i + 1\<rparr>\<rparr> else p1);
              (_, f1) = file_seek (file_handle p2) 0;
              (rc, f2) = file_write f1 (header_page p2)
          in if rc \<noteq> int AMIDB_PAGE_SIZE then (- 1, 0, p2\<lparr>file_handle := f2\<rparr>)
             else let (_, f3) = file_seek f2 (i * 4096);
                      (_, f4) = file_write f3 (empty_page i)
                  in (0, i, p2\<lparr>file_handle := f4\<rparr>))"

text \<open>\<^verbatim>\<open>pager_free_page\<close>\<close>

definition pager_free_page :: "amidb_pager \<Rightarrow> u32 \<Rightarrow> int \<times> amidb_pager" where
  "pager_free_page p page_num =
     (if read_only p \<or> page_num = 0 \<or> page_num \<ge> AMIDB_MAX_PAGES then (- 1, p)
      else if \<not> bitmap_test (bitmap p) page_num then (- 1, p)
      else let p1 = p\<lparr>bitmap := bitmap_clear (bitmap p) page_num\<rparr>;
               (_, f1) = file_seek (file_handle p1) 0;
               (rc, f2) = file_write f1 (header_page p1)
           in ((if rc = int AMIDB_PAGE_SIZE then 0 else - 1), p1\<lparr>file_handle := f2\<rparr>))"

section \<open>txn/wal.c: the write-ahead log\<close>

abbreviation (input) WAL_BUFFER_SIZE :: u32 where "WAL_BUFFER_SIZE \<equiv> 32768"
abbreviation (input) WAL_REGION_START :: u32 where "WAL_REGION_START \<equiv> 0x3000"
abbreviation (input) WAL_REGION_SIZE :: u32 where "WAL_REGION_SIZE \<equiv> 131072"
abbreviation (input) WAL_MAX_RECORDS :: nat where "WAL_MAX_RECORDS \<equiv> 256"
abbreviation (input) WAL_MAGIC :: u32 where "WAL_MAGIC \<equiv> 0x57414C52"
abbreviation (input) WAL_BEGIN :: u16 where "WAL_BEGIN \<equiv> 0x0001"
abbreviation (input) WAL_COMMIT :: u16 where "WAL_COMMIT \<equiv> 0x0002"
abbreviation (input) WAL_PAGE :: u16 where "WAL_PAGE \<equiv> 0x0010"

text \<open>
  WAL records are built in a C struct and copied with \<^verbatim>\<open>memcpy\<close>, so their bytes are in
  the byte order of the machine (the 68000 is big-endian, the test hosts little-endian).
  The order is a parameter of the model. The layout is the one \<^verbatim>\<open>wal.h\<close> documents:
  24 bytes without padding, the checksum at offset 20.
\<close>

datatype byte_order = Big_Endian | Little_Endian

definition le_bytes :: "nat \<Rightarrow> 'a::len word \<Rightarrow> u8 list" where
  "le_bytes n v = map (\<lambda>i. ucast (drop_bit (8 * i) v)) [0..<n]"

definition le_word :: "u8 list \<Rightarrow> 'a::len word" where
  "le_word bs = foldr (\<lambda>b acc. ucast b OR push_bit 8 acc) bs 0"

definition native_bytes :: "byte_order \<Rightarrow> nat \<Rightarrow> 'a::len word \<Rightarrow> u8 list" where
  "native_bytes bo n v = (case bo of Little_Endian \<Rightarrow> le_bytes n v | Big_Endian \<Rightarrow> rev (le_bytes n v))"

definition native_word :: "byte_order \<Rightarrow> u8 list \<Rightarrow> 'a::len word" where
  "native_word bo bs = (case bo of Little_Endian \<Rightarrow> le_word bs | Big_Endian \<Rightarrow> le_word (rev bs))"

record wal_record_header =
  h_magic :: u32
  h_record_type :: u16
  h_flags :: u16
  h_record_size :: u32
  h_txn_id :: u64
  h_checksum :: u32

definition header_bytes :: "byte_order \<Rightarrow> wal_record_header \<Rightarrow> u8 list" where
  "header_bytes bo h =
     native_bytes bo 4 (h_magic h) @ native_bytes bo 2 (h_record_type h)
     @ native_bytes bo 2 (h_flags h) @ native_bytes bo 4 (h_record_size h)
     @ native_bytes bo 8 (h_txn_id h) @ native_bytes bo 4 (h_checksum h)"

definition parse_header :: "byte_order \<Rightarrow> u8 list \<Rightarrow> wal_record_header" where
  "parse_header bo bs =
     \<lparr>h_magic = native_word bo (slice bs 0 4), h_record_type = native_word bo (slice bs 4 2),
      h_flags = native_word bo (slice bs 6 2), h_record_size = native_word bo (slice bs 8 4),
      h_txn_id = native_word bo (slice bs 12 8), h_checksum = native_word bo (slice bs 20 4)\<rparr>"

text \<open>The WAL context; the pager it points to is passed alongside where it is used.\<close>

record wal_context =
  buffer :: "u8 list"
  buffer_used :: u32
  current_txn_id :: u64
  txn_start_offset :: u32
  w_wal_head :: u32
  w_wal_tail :: u32
  checkpoint_count :: u32
  total_records :: u32

definition wal_create :: wal_context where
  "wal_create =
     \<lparr>buffer = replicate 32768 0, buffer_used = 0, current_txn_id = 0, txn_start_offset = 0,
      w_wal_head = 0, w_wal_tail = 0, checkpoint_count = 0, total_records = 0\<rparr>"

text \<open>
  \<^verbatim>\<open>wal_write_record\<close>. The payload pointer is \<open>None\<close> for NULL; a payload that is given
  holds at least \<^verbatim>\<open>payload_size\<close> bytes. All sizes are 32-bit and wrap around.
\<close>

definition wal_write_record ::
  "byte_order \<Rightarrow> wal_context \<Rightarrow> u16 \<Rightarrow> u8 list option \<Rightarrow> u32 \<Rightarrow> int \<times> wal_context" where
  "wal_write_record bo wal type payload payload_size =
     (let record_size = 24 + payload_size in
      if buffer_used wal + record_size > WAL_BUFFER_SIZE then (AMIDB_FULL, wal)
      else
        let hdr = \<lparr>h_magic = WAL_MAGIC, h_record_type = type, h_flags = 0,
                   h_record_size = record_size, h_txn_id = current_txn_id wal,
                   h_checksum = 0\<rparr>;
            crc1 = crc32_update 0 (take 20 (header_bytes bo hdr));
            crc = (case payload of
                     Some pl \<Rightarrow> if payload_size > 0
                                then crc32_update crc1 (take (unat payload_size) pl) else crc1
                   | None \<Rightarrow> crc1);
            hdr' = hdr\<lparr>h_checksum := crc\<rparr>;
            write_pos = unat (buffer_used wal);
            b1 = write_at (buffer wal) write_pos (header_bytes bo hdr');
            b2 = (case payload of
                    Some pl \<Rightarrow> if payload_size > 0
                               then write_at b1 (write_pos + 24) (take (unat payload_size) pl)
                               else b1
                  | None \<Rightarrow> b1)
        in (AMIDB_OK, wal\<lparr>buffer := b2, buffer_used := buffer_used wal + record_size,
                           total_records := total_records wal + 1\<rparr>))"

text \<open>
  \<^verbatim>\<open>wal_verify_checksum(record_data, record_size)\<close>; \<open>record_data\<close> is the memory from the
  pointer on. The payload length is taken from the header, as in the source.
\<close>

definition wal_verify_checksum :: "byte_order \<Rightarrow> u8 list \<Rightarrow> u32 \<Rightarrow> bool" where
  "wal_verify_checksum bo record_data record_size =
     (if record_size < 24 then False
      else
        let hdr = parse_header bo (take 24 record_data);
            payload_size = h_record_size hdr - 24;
            c1 = crc32_update 0 (take 20 record_data);
            c = (if payload_size > 0
                 then crc32_update c1 (take (unat payload_size) (drop 24 record_data)) else c1)
        in c = h_checksum hdr)"

definition wal_reset_buffer :: "wal_context \<Rightarrow> wal_context" where
  "wal_reset_buffer wal = wal\<lparr>buffer_used := 0, w_wal_head := 0, w_wal_tail := 0\<rparr>"

definition wal_flush :: "wal_context \<Rightarrow> amidb_pager \<Rightarrow> int \<times> wal_context \<times> amidb_pager" where
  "wal_flush wal p =
     (if buffer_used wal = 0 then (AMIDB_OK, wal, p)
      else if w_wal_head wal + buffer_used wal > WAL_REGION_SIZE then (AMIDB_FULL, wal, p)
      else
        let (rc, f1) = file_seek (file_handle p) (WAL_REGION_START + w_wal_head wal)
        in if rc \<noteq> 0 then (AMIDB_IOERR, wal, p\<lparr>file_handle := f1\<rparr>)
           else
             let (n, f2) = file_write f1 (take (unat (buffer_used wal)) (buffer wal));
                 p' = p\<lparr>file_handle := f2\<rparr>
             in if n \<noteq> sint (buffer_used wal) then (AMIDB_IOERR, wal, p')
                else (AMIDB_OK, wal\<lparr>w_wal_head := w_wal_head wal + buffer_used wal\<rparr>, p'))"

section \<open>storage/cache.c: the page cache\<close>

abbreviation (input) CACHE_ENTRY_INVALID :: u8 where "CACHE_ENTRY_INVALID \<equiv> 0"
abbreviation (input) CACHE_ENTRY_CLEAN :: u8 where "CACHE_ENTRY_CLEAN \<equiv> 1"
abbreviation (input) CACHE_ENTRY_DIRTY :: u8 where "CACHE_ENTRY_DIRTY \<equiv> 2"

text \<open>
  A pointer to a cache entry is its index in the \<^verbatim>\<open>entries\<close> array, NULL is \<open>None\<close>.
  The capacity of the cache is the length of \<open>entries\<close>.
\<close>

record cache_entry =
  ce_page_num :: u32
  ce_state :: u8
  pin_count :: u8
  ce_txn_id :: u64
  ce_data :: "u8 list"
  lru_prev :: "nat option"
  lru_next :: "nat option"

record page_cache =
  count :: u32
  entries :: "cache_entry list"
  lru_head :: "nat option"
  lru_tail :: "nat option"

definition entry_upd :: "page_cache \<Rightarrow> nat \<Rightarrow> (cache_entry \<Rightarrow> cache_entry) \<Rightarrow> page_cache" where
  "entry_upd c i f = c\<lparr>entries := (entries c)[i := f (entries c ! i)]\<rparr>"

definition invalid_entry :: cache_entry where
  "invalid_entry =
     \<lparr>ce_page_num = 0, ce_state = CACHE_ENTRY_INVALID, pin_count = 0, ce_txn_id = 0,
      ce_data = replicate AMIDB_PAGE_SIZE 0, lru_prev = None, lru_next = None\<rparr>"

definition cache_create :: "nat \<Rightarrow> page_cache" where
  "cache_create cap =
     \<lparr>count = 0, entries = replicate (if cap = 0 then 64 else cap) invalid_entry,
      lru_head = None, lru_tail = None\<rparr>"

fun find_entry_from :: "cache_entry list \<Rightarrow> u32 \<Rightarrow> nat \<Rightarrow> nat option" where
  "find_entry_from [] pn i = None"
| "find_entry_from (e # es) pn i =
     (if ce_state e \<noteq> CACHE_ENTRY_INVALID \<and> ce_page_num e = pn then Some i
      else find_entry_from es pn (Suc i))"

definition find_entry :: "page_cache \<Rightarrow> u32 \<Rightarrow> nat option" where
  "find_entry c pn = find_entry_from (entries c) pn 0"











definition cache_unpin :: "page_cache \<Rightarrow> u32 \<Rightarrow> int \<times> page_cache" where
  "cache_unpin c pn =
     (case find_entry c pn of
        None \<Rightarrow> (- 1, c)
      | Some i \<Rightarrow>
          (0, if pin_count (entries c ! i) > 0
              then entry_upd c i (\<lambda>x. x\<lparr>pin_count := pin_count x - 1\<rparr>) else c))"

section \<open>txn/txn.c: the transaction manager\<close>

datatype txn_state_t =
  TXN_STATE_IDLE | TXN_STATE_ACTIVE | TXN_STATE_COMMITTING | TXN_STATE_ABORTING
  | TXN_STATE_COMMITTED

record txn_context =
  t_state :: txn_state_t
  t_txn_id :: u64
  dirty_pages :: "u32 list"
  dirty_count :: u32
  pinned_pages :: "u32 list"
  pinned_count :: u32
  pages_logged :: u32
  commit_count :: u32
  abort_count :: u32

text \<open>
  The objects a transaction reaches through its pointers: \<^verbatim>\<open>txn->wal\<close>, \<^verbatim>\<open>txn->cache\<close> and
  the pager that both of them point to.
\<close>

record db =
  db_txn :: txn_context
  db_wal :: wal_context
  db_cache :: page_cache
  db_pager :: amidb_pager

definition txn_create :: txn_context where
  "txn_create =
     \<lparr>t_state = TXN_STATE_IDLE, t_txn_id = 0, dirty_pages = replicate 64 0, dirty_count = 0,
      pinned_pages = replicate 64 0, pinned_count = 0, pages_logged = 0, commit_count = 0,
      abort_count = 0\<rparr>"

text \<open>The used prefix of a fixed array with its count, as the \<^verbatim>\<open>for\<close> loops read it.\<close>

definition used :: "u32 \<Rightarrow> u32 list \<Rightarrow> u32 list" where
  "used n xs = take (unat n) xs"

definition txn_begin :: "byte_order \<Rightarrow> db \<Rightarrow> int \<times> db" where
  "txn_begin bo d =
     (if t_state (db_txn d) \<noteq> TXN_STATE_IDLE then (AMIDB_BUSY, d)
      else
        let w1 = (db_wal d)\<lparr>current_txn_id := current_txn_id (db_wal d) + 1\<rparr>;
            t1 = (db_txn d)\<lparr>t_state := TXN_STATE_ACTIVE, t_txn_id := current_txn_id w1,
                            dirty_count := 0, pinned_count := 0\<rparr>;
            (rc, w2) = wal_write_record bo w1 WAL_BEGIN None 0
        in if rc \<noteq> AMIDB_OK then (rc, d\<lparr>db_txn := t1\<lparr>t_state := TXN_STATE_IDLE\<rparr>, db_wal := w2\<rparr>)
           else (AMIDB_OK, d\<lparr>db_txn := t1, db_wal := w2\<rparr>))"

text \<open>The reload loop of \<^verbatim>\<open>txn_abort\<close> over the dirty pages, and its unpin loop.\<close>

fun abort_reload :: "page_cache \<Rightarrow> amidb_pager \<Rightarrow> u32 list \<Rightarrow> page_cache \<times> amidb_pager" where
  "abort_reload c p [] = (c, p)"
| "abort_reload c p (pn # pns) =
     (case find_entry c pn of
        None \<Rightarrow> abort_reload c p pns
      | Some i \<Rightarrow>
          let (rc, temp_buf, p') = pager_read_page p pn (replicate AMIDB_PAGE_SIZE 0);
              c1 = (if rc = AMIDB_OK
                    then entry_upd c i (\<lambda>x. x\<lparr>ce_data := temp_buf, ce_state := CACHE_ENTRY_CLEAN\<rparr>)
                    else entry_upd c i (\<lambda>x. x\<lparr>ce_state := CACHE_ENTRY_INVALID\<rparr>));
              c2 = entry_upd c1 i (\<lambda>x. x\<lparr>ce_txn_id := 0\<rparr>)
          in abort_reload c2 p' pns)"

fun unpin_all :: "page_cache \<Rightarrow> u32 list \<Rightarrow> page_cache" where
  "unpin_all c [] = c"
| "unpin_all c (pn # pns) = unpin_all (snd (cache_unpin c pn)) pns"

definition txn_abort :: "db \<Rightarrow> int \<times> db" where
  "txn_abort d =
     (let t = db_txn d;
          (c1, p1) = abort_reload (db_cache d) (db_pager d) (used (dirty_count t) (dirty_pages t));
          c2 = unpin_all c1 (used (pinned_count t) (pinned_pages t));
          t' = t\<lparr>dirty_count := 0, pinned_count := 0, t_state := TXN_STATE_IDLE,
                 abort_count := abort_count t + 1\<rparr>;
          w' = (db_wal d)\<lparr>buffer_used := txn_start_offset (db_wal d)\<rparr>
      in (AMIDB_OK, \<lparr>db_txn = t', db_wal = w', db_cache = c2, db_pager = p1\<rparr>))"

text \<open>Step 1 of \<^verbatim>\<open>txn_commit\<close>: one PAGE record per dirty page that is cached and dirty.\<close>

fun commit_log_pages ::
  "byte_order \<Rightarrow> page_cache \<Rightarrow> wal_context \<Rightarrow> u32 \<Rightarrow> u32 list \<Rightarrow> int \<times> wal_context \<times> u32" where
  "commit_log_pages bo c w logged [] = (AMIDB_OK, w, logged)"
| "commit_log_pages bo c w logged (pn # pns) =
     (case find_entry c pn of
        None \<Rightarrow> commit_log_pages bo c w logged pns
      | Some i \<Rightarrow>
          if ce_state (entries c ! i) = CACHE_ENTRY_DIRTY
          then
            let payload = native_bytes bo 4 pn @ take AMIDB_PAGE_SIZE (ce_data (entries c ! i));
                (rc, w') = wal_write_record bo w WAL_PAGE (Some payload) 4100
            in if rc \<noteq> AMIDB_OK then (rc, w', logged)
               else commit_log_pages bo c w' (logged + 1) pns
          else commit_log_pages bo c w logged pns)"

text \<open>Step 4 of \<^verbatim>\<open>txn_commit\<close>: the eager checkpoint.\<close>

fun commit_checkpoint :: "page_cache \<Rightarrow> amidb_pager \<Rightarrow> u32 list \<Rightarrow> page_cache \<times> amidb_pager" where
  "commit_checkpoint c p [] = (c, p)"
| "commit_checkpoint c p (pn # pns) =
     (case find_entry c pn of
        None \<Rightarrow> commit_checkpoint c p pns
      | Some i \<Rightarrow>
          let (rc, p') = pager_write_page p pn (ce_data (entries c ! i))
          in if rc \<noteq> AMIDB_OK then commit_checkpoint c p' pns
             else commit_checkpoint
                    (entry_upd c i (\<lambda>x. x\<lparr>ce_state := CACHE_ENTRY_CLEAN, ce_txn_id := 0\<rparr>)) p' pns)"

definition txn_commit :: "byte_order \<Rightarrow> db \<Rightarrow> int \<times> db" where
  "txn_commit bo d =
     (if t_state (db_txn d) \<noteq> TXN_STATE_ACTIVE then (AMIDB_ERROR, d)
      else
        let t0 = (db_txn d)\<lparr>t_state := TXN_STATE_COMMITTING\<rparr>;
            dirty = used (dirty_count t0) (dirty_pages t0);
            (rc1, w1, logged) = commit_log_pages bo (db_cache d) (db_wal d) (pages_logged t0) dirty;
            d1 = d\<lparr>db_txn := t0\<lparr>pages_logged := logged\<rparr>, db_wal := w1\<rparr>
        in if rc1 \<noteq> AMIDB_OK then (rc1, snd (txn_abort d1))
           else
             let (rc2, w2) = wal_write_record bo w1 WAL_COMMIT None 0;
                 d2 = d1\<lparr>db_wal := w2\<rparr>
             in if rc2 \<noteq> AMIDB_OK then (rc2, snd (txn_abort d2))
                else
                  let (rc3, w3, p3) = wal_flush w2 (db_pager d2);
                      d3 = d2\<lparr>db_wal := w3, db_pager := p3\<rparr>
                  in if rc3 \<noteq> AMIDB_OK
                     then (rc3, d3\<lparr>db_txn := (db_txn d3)\<lparr>t_state := TXN_STATE_IDLE\<rparr>\<rparr>)
                     else
                       let (c4, p4) = commit_checkpoint (db_cache d3) p3 dirty;
                           c5 = unpin_all c4 (used (pinned_count t0) (pinned_pages t0));
                           t5 = (db_txn d3)\<lparr>dirty_count := 0, pinned_count := 0,
                                              t_state := TXN_STATE_IDLE,
                                              commit_count := commit_count (db_txn d3) + 1\<rparr>
                       in (AMIDB_OK, \<lparr>db_txn = t5, db_wal = wal_reset_buffer w3,
                                       db_cache = c5, db_pager = p4\<rparr>))"


text \<open>A small writable pager with pages 0 and 1 allocated, used to run the operations.\<close>

definition plain_file :: "u8 list \<Rightarrow> amidb_file" where
  "plain_file bs = \<lparr>f_bytes = bs, f_pos = 0, f_faults = []\<rparr>"

definition demo_pager :: amidb_pager where
  "demo_pager =
     \<lparr>file_handle = plain_file [], header = init_file_header\<lparr>page_count := 2\<rparr>,
      bitmap = 3 # replicate 511 0, bitmap_size = 512, read_only = False\<rparr>"

text \<open>
  What \<^verbatim>\<open>wal_write_record\<close> appends when the record fits: the payload bytes it copies and
  the header it builds, with the checksum computed over the first 20 header bytes
  followed by the payload.
\<close>

definition payload_bytes :: "u8 list option \<Rightarrow> u32 \<Rightarrow> u8 list" where
  "payload_bytes payload payload_size =
     (case payload of None \<Rightarrow> [] | Some pl \<Rightarrow> take (unat payload_size) pl)"

definition built_header ::
  "byte_order \<Rightarrow> wal_context \<Rightarrow> u16 \<Rightarrow> u8 list option \<Rightarrow> u32 \<Rightarrow> wal_record_header" where
  "built_header bo wal type payload payload_size =
     \<lparr>h_magic = WAL_MAGIC, h_record_type = type, h_flags = 0,
      h_record_size = 24 + payload_size, h_txn_id = current_txn_id wal,
      h_checksum = crc32_update
        (crc32_update 0 (take 20 (header_bytes bo
           \<lparr>h_magic = WAL_MAGIC, h_record_type = type, h_flags = 0,
            h_record_size = 24 + payload_size, h_txn_id = current_txn_id wal,
            h_checksum = 0\<rparr>)))
        (payload_bytes payload payload_size)\<rparr>"

definition demo_db :: db where
  "demo_db = \<lparr>db_txn = txn_create, db_wal = wal_create, db_cache = cache_create 2,
              db_pager = demo_pager\<rparr>"

definition committing_db :: db where
  "committing_db = demo_db\<lparr>db_txn := txn_create\<lparr>t_state := TXN_STATE_COMMITTING\<rparr>\<rparr>"

section \<open>storage/row.c: the row codec\<close>

abbreviation (input) AMIDB_TYPE_NULL :: u8 where "AMIDB_TYPE_NULL \<equiv> 0"
abbreviation (input) AMIDB_TYPE_INTEGER :: u8 where "AMIDB_TYPE_INTEGER \<equiv> 1"
abbreviation (input) AMIDB_TYPE_TEXT :: u8 where "AMIDB_TYPE_TEXT \<equiv> 2"
abbreviation (input) AMIDB_TYPE_BLOB :: u8 where "AMIDB_TYPE_BLOB \<equiv> 3"
abbreviation (input) AMIDB_MAX_COLUMNS :: u32 where "AMIDB_MAX_COLUMNS \<equiv> 32"

text \<open>
  \<^verbatim>\<open>struct amidb_value\<close>: the type tag and the union, as the setters fill it. A text or a
  blob owns a copy of its bytes (\<^verbatim>\<open>u.blob.data\<close>, NULL for no bytes) and
  \<^verbatim>\<open>u.blob.sz\<close> is their number; an integer is the 32 bits of \<^verbatim>\<open>u.i\<close>.
\<close>

datatype amidb_value = VNull | VInteger u32 | VText "u8 list" | VBlob "u8 list"

record amidb_row =
  column_count :: u32
  rvalues :: "amidb_value list"

definition value_type :: "amidb_value \<Rightarrow> u8" where
  "value_type v = (case v of VNull \<Rightarrow> AMIDB_TYPE_NULL | VInteger _ \<Rightarrow> AMIDB_TYPE_INTEGER
                   | VText _ \<Rightarrow> AMIDB_TYPE_TEXT | VBlob _ \<Rightarrow> AMIDB_TYPE_BLOB)"

definition row_init :: amidb_row where
  "row_init = \<lparr>column_count = 0, rvalues = replicate 32 VNull\<rparr>"

text \<open>The common tail of the four setters: store the value, grow \<^verbatim>\<open>column_count\<close>.\<close>

definition row_put :: "amidb_row \<Rightarrow> u32 \<Rightarrow> amidb_value \<Rightarrow> amidb_row" where
  "row_put row column_index v =
     (let r1 = row\<lparr>rvalues := (rvalues row)[unat column_index := v]\<rparr>
      in if column_index \<ge> column_count r1 then r1\<lparr>column_count := column_index + 1\<rparr> else r1)"

definition row_set_int :: "amidb_row \<Rightarrow> u32 \<Rightarrow> u32 \<Rightarrow> int \<times> amidb_row" where
  "row_set_int row column_index v =
     (if column_index \<ge> AMIDB_MAX_COLUMNS then (- 1, row)
      else (0, row_put row column_index (VInteger v)))"

definition row_set_null :: "amidb_row \<Rightarrow> u32 \<Rightarrow> int \<times> amidb_row" where
  "row_set_null row column_index =
     (if column_index \<ge> AMIDB_MAX_COLUMNS then (- 1, row)
      else (0, row_put row column_index VNull))"

text \<open>
  The \<^verbatim>\<open>while (*p)\<close> loop of \<^verbatim>\<open>row_set_text\<close> over the memory that starts at \<^verbatim>\<open>text\<close>:
  the number of bytes before the first zero byte. \<open>None\<close> when the memory given holds
  no zero byte, so that the loop reads past it.
\<close>

definition c_strlen :: "u8 list \<Rightarrow> nat option" where
  "c_strlen mem = (if 0 \<in> set mem then Some (length (takeWhile (\<lambda>b. b \<noteq> 0) mem)) else None)"

text \<open>
  \<^verbatim>\<open>row_set_text(row, column_index, text, length)\<close>; \<open>mem\<close> is the memory from \<^verbatim>\<open>text\<close>
  on. A \<^verbatim>\<open>length\<close> of 0 means: take the length of the C string.
\<close>

definition row_set_text :: "amidb_row \<Rightarrow> u32 \<Rightarrow> u8 list \<Rightarrow> u32 \<Rightarrow> (int \<times> amidb_row) option" where
  "row_set_text row column_index mem len =
     (if column_index \<ge> AMIDB_MAX_COLUMNS then Some (- 1, row)
      else if len = 0
      then (case c_strlen mem of
              None \<Rightarrow> None
            | Some n \<Rightarrow> Some (0, row_put row column_index (VText (take n mem))))
      else Some (0, row_put row column_index (VText (take (unat len) mem))))"

definition row_set_blob :: "amidb_row \<Rightarrow> u32 \<Rightarrow> u8 list \<Rightarrow> u32 \<Rightarrow> int \<times> amidb_row" where
  "row_set_blob row column_index mem sz =
     (if column_index \<ge> AMIDB_MAX_COLUMNS then (- 1, row)
      else (0, row_put row column_index (VBlob (take (unat sz) mem))))"

definition blob_size :: "u8 list \<Rightarrow> u32" where
  "blob_size d = of_nat (length d)"

definition column_size :: "amidb_value \<Rightarrow> u32" where
  "column_size v = (case v of VNull \<Rightarrow> 1 | VInteger _ \<Rightarrow> 1 + 4
                    | VText d \<Rightarrow> 1 + (4 + blob_size d) | VBlob d \<Rightarrow> 1 + (4 + blob_size d))"

definition row_get_serialized_size :: "amidb_row \<Rightarrow> u32" where
  "row_get_serialized_size row =
     fold (\<lambda>v sz. sz + column_size v) (take (unat (column_count row)) (rvalues row)) 2"

text \<open>The column loop of \<^verbatim>\<open>row_serialize\<close>: the buffer and the offset after each column.\<close>

fun serialize_columns :: "amidb_value list \<Rightarrow> u8 list \<Rightarrow> u32 \<Rightarrow> u8 list \<times> u32" where
  "serialize_columns [] buf off = (buf, off)"
| "serialize_columns (v # vs) buf off =
     (let b1 = write_at buf (unat off) [value_type v]; o1 = off + 1
      in case v of
           VNull \<Rightarrow> serialize_columns vs b1 o1
         | VInteger i \<Rightarrow> serialize_columns vs (write_at b1 (unat o1) (put_u32 i)) (o1 + 4)
         | VText d \<Rightarrow>
             let b2 = write_at b1 (unat o1) (put_u32 (blob_size d)); o2 = o1 + 4
             in if blob_size d > 0
                then serialize_columns vs (write_at b2 (unat o2) d) (o2 + blob_size d)
                else serialize_columns vs b2 o2
         | VBlob d \<Rightarrow>
             let b2 = write_at b1 (unat o1) (put_u32 (blob_size d)); o2 = o1 + 4
             in if blob_size d > 0
                then serialize_columns vs (write_at b2 (unat o2) d) (o2 + blob_size d)
                else serialize_columns vs b2 o2)"

definition row_serialize :: "amidb_row \<Rightarrow> u8 list \<Rightarrow> u32 \<Rightarrow> int \<times> u8 list" where
  "row_serialize row buf buffer_size =
     (if buffer_size < row_get_serialized_size row then (- 1, buf)
      else
        let b0 = write_at buf 0 (put_u16 (ucast (column_count row)));
            (b, off) = serialize_columns (take (unat (column_count row)) (rvalues row)) b0 2
        in (sint off, b))"

text \<open>
  The column loop of \<^verbatim>\<open>row_deserialize\<close>, with \<open>n\<close> columns left to read into column
  \<open>i\<close>. \<open>mem\<close> is the memory from \<^verbatim>\<open>buffer\<close> on (at least \<^verbatim>\<open>buffer_size\<close> bytes). Every
  error path clears the row.
\<close>

fun deserialize_columns ::
  "nat \<Rightarrow> u32 \<Rightarrow> amidb_row \<Rightarrow> u8 list \<Rightarrow> u32 \<Rightarrow> u32 \<Rightarrow> (int \<times> amidb_row) option" where
  "deserialize_columns 0 i row mem buffer_size off = Some (sint off, row)"
| "deserialize_columns (Suc n) i row mem buffer_size off =
     (if off \<ge> buffer_size then Some (- 1, row_init)
      else
        let type = mem ! unat off; o1 = off + 1
        in if type = AMIDB_TYPE_NULL
           then (case row_set_null row i of
                   (rc, r1) \<Rightarrow> if rc \<noteq> 0 then Some (- 1, row_init)
                               else deserialize_columns n (i + 1) r1 mem buffer_size o1)
           else if type = AMIDB_TYPE_INTEGER
           then (if o1 + 4 > buffer_size then Some (- 1, row_init)
                 else case row_set_int row i (get_u32 (drop (unat o1) mem)) of
                   (rc, r1) \<Rightarrow> if rc \<noteq> 0 then Some (- 1, row_init)
                               else deserialize_columns n (i + 1) r1 mem buffer_size (o1 + 4))
           else if type = AMIDB_TYPE_TEXT \<or> type = AMIDB_TYPE_BLOB
           then (if o1 + 4 > buffer_size then Some (- 1, row_init)
                 else
                   let sz = get_u32 (drop (unat o1) mem); o2 = o1 + 4
                   in if o2 + sz > buffer_size then Some (- 1, row_init)
                      else if type = AMIDB_TYPE_TEXT
                      then (case row_set_text row i (drop (unat o2) mem) sz of
                              None \<Rightarrow> None
                            | Some (rc, r1) \<Rightarrow>
                                if rc \<noteq> 0 then Some (- 1, row_init)
                                else deserialize_columns n (i + 1) r1 mem buffer_size (o2 + sz))
                      else (case row_set_blob row i (drop (unat o2) mem) sz of
                              (rc, r1) \<Rightarrow>
                                if rc \<noteq> 0 then Some (- 1, row_init)
                                else deserialize_columns n (i + 1) r1 mem buffer_size (o2 + sz)))
           else Some (- 1, row_init))"

definition row_deserialize :: "amidb_row \<Rightarrow> u8 list \<Rightarrow> u32 \<Rightarrow> (int \<times> amidb_row) option" where
  "row_deserialize row mem buffer_size =
     (if buffer_size < 2 then Some (- 1, row)
      else
        let cc = get_u16 mem
        in if cc > 32 then Some (- 1, row_init)
           else deserialize_columns (unat cc) 0 row_init mem buffer_size 2)"

text \<open>The row \<^verbatim>\<open>row_set_text(&row, 0, "", 0); row_set_int(&row, 1, 1)\<close> builds from \<^verbatim>\<open>row_init\<close>.\<close>

definition empty_text_row :: amidb_row where
  "empty_text_row = \<lparr>column_count = 2, rvalues = VText [] # VInteger 1 # replicate 30 VNull\<rparr>"

text \<open>A page lies in the WAL region when its first byte does (pages 3 to 34).\<close>

definition in_wal_region :: "u32 \<Rightarrow> bool" where
  "in_wal_region n =
     (unat WAL_REGION_START \<le> unat n * AMIDB_PAGE_SIZE
      \<and> unat n * AMIDB_PAGE_SIZE < unat WAL_REGION_START + unat WAL_REGION_SIZE)"

section \<open>txn/wal.c: recovery\<close>

text \<open>
  The two loops of \<^verbatim>\<open>wal_recover\<close> need not end (a record of size 0 leaves the offset
  where it is), and they can read past the 128 KiB buffer. The loops take fuel, one
  unit per iteration: \<open>Diverges\<close> is the run that is still looping when the fuel is
  used up, \<open>Undefined\<close> the run that reads outside the buffer.
\<close>

datatype 'a outcome = Done 'a | Diverges | Undefined

text \<open>
  Pass 1: the transaction ids of the COMMIT records, in the order found, at most
  \<^verbatim>\<open>WAL_MAX_RECORDS\<close> of them.
\<close>

fun recover_pass1 ::
  "nat \<Rightarrow> byte_order \<Rightarrow> u8 list \<Rightarrow> u32 \<Rightarrow> u32 \<Rightarrow> u64 list \<Rightarrow> u64 list outcome" where
  "recover_pass1 0 bo buf head off committed = Diverges"
| "recover_pass1 (Suc n) bo buf head off committed =
     (if off < head \<and> off + 24 \<le> WAL_REGION_SIZE
      then
        if unat off + 24 > length buf then Undefined
        else
          let hdr = parse_header bo (slice buf (unat off) 24)
          in if h_magic hdr \<noteq> WAL_MAGIC then Done committed
             else if h_record_size hdr \<ge> 24 \<and> unat off + unat (h_record_size hdr) > length buf
             then Undefined
             else if \<not> wal_verify_checksum bo (drop (unat off) buf) (h_record_size hdr)
             then Done committed
             else recover_pass1 n bo buf head (off + h_record_size hdr)
                    (if h_record_type hdr = WAL_COMMIT \<and> length committed < WAL_MAX_RECORDS
                     then committed @ [h_txn_id hdr] else committed)
      else Done committed)"

text \<open>
  Pass 2: the PAGE records of committed transactions are written through
  \<^verbatim>\<open>pager_write_page\<close>; the result is the return code so far and the pager.
\<close>

fun recover_pass2 ::
  "nat \<Rightarrow> byte_order \<Rightarrow> u8 list \<Rightarrow> u32 \<Rightarrow> u32 \<Rightarrow> u64 list \<Rightarrow> amidb_pager
     \<Rightarrow> (int \<times> amidb_pager) outcome" where
  "recover_pass2 0 bo buf head off committed p = Diverges"
| "recover_pass2 (Suc n) bo buf head off committed p =
     (if off < head \<and> off + 24 \<le> WAL_REGION_SIZE
      then
        if unat off + 24 > length buf then Undefined
        else
          let hdr = parse_header bo (slice buf (unat off) 24)
          in if h_magic hdr \<noteq> WAL_MAGIC then Done (0, p)
             else if h_txn_id hdr \<in> set committed \<and> h_record_type hdr = WAL_PAGE
             then
               if unat off + 4124 > length buf then Undefined
               else
                 let page_num = native_word bo (slice buf (unat off + 24) 4);
                     page_data = slice buf (unat off + 28) AMIDB_PAGE_SIZE;
                     (rc, p') = pager_write_page p page_num page_data
                 in if rc \<noteq> 0 then Done (rc, p')
                    else recover_pass2 n bo buf head (off + h_record_size hdr) committed p'
             else recover_pass2 n bo buf head (off + h_record_size hdr) committed p
      else Done (0, p))"

text \<open>
  \<^verbatim>\<open>wal_recover\<close>. \<open>junk\<close> is what the freshly allocated 128 KiB buffer holds before the
  region is read into it (\<^verbatim>\<open>mem_alloc\<close> without the clear flag).
\<close>

definition wal_recover ::
  "nat \<Rightarrow> byte_order \<Rightarrow> u8 list \<Rightarrow> wal_context \<Rightarrow> amidb_pager
     \<Rightarrow> (int \<times> wal_context \<times> amidb_pager) outcome" where
  "wal_recover fuel bo junk wal p =
     (let (rc, f1) = file_seek (file_handle p) WAL_REGION_START
      in if rc \<noteq> 0 then Done (AMIDB_IOERR, wal, p\<lparr>file_handle := f1\<rparr>)
         else
           let (n, got, f2) = file_read f1 (unat WAL_REGION_SIZE);
               p1 = p\<lparr>file_handle := f2\<rparr>;
               buf = got @ drop (length got) junk
           in if n < 0 then Done (AMIDB_IOERR, wal, p1)
              else
                case recover_pass1 fuel bo buf (w_wal_head wal) 0 [] of
                  Diverges \<Rightarrow> Diverges
                | Undefined \<Rightarrow> Undefined
                | Done committed \<Rightarrow>
                    (case recover_pass2 fuel bo buf (w_wal_head wal) 0 committed p1 of
                       Diverges \<Rightarrow> Diverges
                     | Undefined \<Rightarrow> Undefined
                     | Done (rc2, p2) \<Rightarrow>
                         if rc2 \<noteq> 0 then Done (rc2, wal, p2)
                         else Done (AMIDB_OK,
                                    wal\<lparr>w_wal_head := 0, w_wal_tail := 0, buffer_used := 0\<rparr>, p2)))"

section \<open>storage/pager.c: opening a database\<close>

text \<open>
  The loop of \<^verbatim>\<open>pager_open\<close> that appends zeroed pages until the file covers 35 pages;
  it stops at the first failed write. \<open>n\<close> is the number of pages still missing.
\<close>

fun extend_file :: "nat \<Rightarrow> amidb_file \<Rightarrow> amidb_file" where
  "extend_file 0 f = f"
| "extend_file (Suc n) f =
     (let (rc, f') = file_write f (replicate AMIDB_PAGE_SIZE 0)
      in if rc \<noteq> int AMIDB_PAGE_SIZE then f' else extend_file n f')"

definition pages_missing :: "amidb_file \<Rightarrow> nat" where
  "pages_missing f = (35 * AMIDB_PAGE_SIZE - length (f_bytes f) + (AMIDB_PAGE_SIZE - 1)) div AMIDB_PAGE_SIZE"

text \<open>
  \<^verbatim>\<open>pager_open(path, read_only, &pager)\<close>, block by block.

  The probe of a writable open: read 64 bytes, compare the magic, seek back. The
  result says whether the file is treated as new.
\<close>

definition open_probe :: "bool \<Rightarrow> amidb_file \<Rightarrow> bool \<times> amidb_file" where
  "open_probe ro f0 =
     (if ro then (False, f0)
      else
        let (n, test_buf, fa) = file_read f0 64;
            fb = snd (file_seek fa 0)
        in if n = 64 then (get_u32 test_buf \<noteq> AMIDB_MAGIC, fb) else (True, fb))"

text \<open>
  The header: written for a new file, read and checked for an existing one. \<open>Inl\<close> is
  the failed open (return -1) with the file as it is left.
\<close>

definition open_header :: "bool \<Rightarrow> bool \<Rightarrow> amidb_file \<Rightarrow> amidb_file + amidb_pager" where
  "open_header is_new_file ro f1 =
     (if is_new_file
      then
        let p0 = \<lparr>file_handle = f1, header = init_file_header,
                  bitmap = bitmap_set (replicate 512 0) 0, bitmap_size = 512,
                  read_only = ro\<rparr>;
            (rc, f2) = file_write f1 (header_page p0)
        in if rc \<noteq> int AMIDB_PAGE_SIZE then Inl f2 else Inr (p0\<lparr>file_handle := f2\<rparr>)
      else
        let (rc, page_buf, f2) = file_read f1 AMIDB_PAGE_SIZE
        in if rc \<noteq> int AMIDB_PAGE_SIZE then Inl f2
           else if magic (deserialize_header page_buf) \<noteq> AMIDB_MAGIC then Inl f2
           else Inr \<lparr>file_handle = f2, header = deserialize_header page_buf,
                      bitmap = slice page_buf 64 512, bitmap_size = 512,
                      read_only = ro\<rparr>)"

text \<open>The extension of a writable file to the 35 pages that cover the WAL region.\<close>

definition open_extend :: "bool \<Rightarrow> amidb_pager \<Rightarrow> amidb_pager" where
  "open_extend ro p1 =
     (if \<not> ro \<and> file_size (file_handle p1) < 35 * int AMIDB_PAGE_SIZE
      then p1\<lparr>file_handle := extend_file (pages_missing (file_handle p1))
                                (snd (file_seek_end (file_handle p1)))\<rparr>
      else p1)"

text \<open>Writing page 0 without looking at the result, as both final blocks do.\<close>

definition persist_header :: "amidb_pager \<Rightarrow> amidb_pager" where
  "persist_header p =
     p\<lparr>file_handle := snd (file_write (snd (file_seek (file_handle p) 0)) (header_page p))\<rparr>"

text \<open>The dirty flag of a new writable database.\<close>

definition open_set_dirty :: "bool \<Rightarrow> bool \<Rightarrow> amidb_pager \<Rightarrow> amidb_pager" where
  "open_set_dirty is_new_file ro p =
     (if \<not> ro \<and> is_new_file
      then persist_header (p\<lparr>header := (header p)\<lparr>flags := flags (header p) OR DB_FLAG_DIRTY\<rparr>\<rparr>)
      else p)"

text \<open>
  \<open>fo\<close> is the file at \<^verbatim>\<open>path\<close>, if there is one, as \<^verbatim>\<open>file_open\<close> finds it; a writable
  open creates a missing file. The result is the return code, the pager on success,
  and the file as the call leaves it.
\<close>

definition pager_open ::
  "nat \<Rightarrow> byte_order \<Rightarrow> u8 list \<Rightarrow> amidb_file option \<Rightarrow> bool
     \<Rightarrow> (int \<times> amidb_pager option \<times> amidb_file option) outcome" where
  "pager_open fuel bo junk fo ro =
     (case (if ro then fo else Some (case fo of Some f \<Rightarrow> f | None \<Rightarrow> plain_file [])) of
        None \<Rightarrow> Done (- 1, None, fo)
      | Some f0 \<Rightarrow>
          let (is_new_file, f1) = open_probe ro f0
          in case open_header is_new_file ro f1 of
               Inl f2 \<Rightarrow> Done (- 1, None, Some f2)
             | Inr p1 \<Rightarrow>
                 let p2 = open_extend ro p1
                 in if \<not> is_new_file \<and> \<not> ro \<and> flags (header p2) AND DB_FLAG_DIRTY \<noteq> 0
                    then
                      (case wal_recover fuel bo junk
                              (wal_create\<lparr>w_wal_head := wal_head (header p2),
                                          w_wal_tail := wal_tail (header p2)\<rparr>) p2 of
                         Diverges \<Rightarrow> Diverges
                       | Undefined \<Rightarrow> Undefined
                       | Done (rc, w, p3) \<Rightarrow>
                           if rc \<noteq> 0 then Done (- 1, None, Some (file_handle p3))
                           else
                             let p4 = persist_header (p3\<lparr>header := (header p3)
                                         \<lparr>flags := flags (header p3) AND NOT DB_FLAG_DIRTY,
                                          wal_head := 0, wal_tail := 0\<rparr>\<rparr>);
                                 p5 = open_set_dirty is_new_file ro p4
                             in Done (0, Some p5, Some (file_handle p5)))
                    else
                      let p5 = open_set_dirty is_new_file ro p2
                      in Done (0, Some p5, Some (file_handle p5)))"

text \<open>A file does not start with the magic number, and the header of a new database.\<close>

definition wrong_magic :: "amidb_file \<Rightarrow> bool" where
  "wrong_magic f = (\<not> (length (f_bytes f) \<ge> 4 \<and> get_u32 (f_bytes f) = AMIDB_MAGIC))"

definition fresh_header :: amidb_file_header where
  "fresh_header = init_file_header\<lparr>flags := DB_FLAG_DIRTY\<rparr>"

text \<open>A file of 64 bytes that is no database.\<close>

definition garbage_file :: amidb_file where
  "garbage_file = plain_file (replicate 64 0xFF)"

text \<open>
  A WAL region after a crash: a valid COMMIT record of transaction 1, then a PAGE
  record of transaction 1 (page 40, an image of 4096 bytes 0xAB) whose checksum field
  has its lowest bit flipped, then zeros; and a pager whose file holds that region.
\<close>

definition rec_wal :: wal_context where
  "rec_wal = wal_create\<lparr>current_txn_id := 1\<rparr>"

definition commit_record :: "byte_order \<Rightarrow> u8 list" where
  "commit_record bo = header_bytes bo (built_header bo rec_wal WAL_COMMIT None 0)"

definition page_payload :: "byte_order \<Rightarrow> u8 list" where
  "page_payload bo = native_bytes bo 4 (40 :: u32) @ replicate AMIDB_PAGE_SIZE 0xAB"

definition bad_page_header :: "byte_order \<Rightarrow> wal_record_header" where
  "bad_page_header bo =
     (built_header bo rec_wal WAL_PAGE (Some (page_payload bo)) 4100)
       \<lparr>h_checksum := h_checksum (built_header bo rec_wal WAL_PAGE (Some (page_payload bo)) 4100)
                        XOR 1\<rparr>"

definition bad_region :: "byte_order \<Rightarrow> u8 list" where
  "bad_region bo =
     commit_record bo @ header_bytes bo (bad_page_header bo) @ page_payload bo
     @ replicate (131072 - 24 - 4124) 0"

definition crashed_pager :: "byte_order \<Rightarrow> amidb_pager" where
  "crashed_pager bo =
     \<lparr>file_handle = plain_file (replicate 12288 0 @ bad_region bo),
      header = init_file_header\<lparr>page_count := 35, flags := DB_FLAG_DIRTY, wal_head := 4148\<rparr>,
      bitmap = 3 # replicate 511 0, bitmap_size = 512, read_only = False\<rparr>"

text \<open>
  What the loop of \<^verbatim>\<open>pager_allocate_page\<close> looks for: \<open>n\<close> is the lowest page number from
  1 on whose bit is clear in the bitmap.
\<close>

definition lowest_clear :: "u8 list \<Rightarrow> u32 \<Rightarrow> bool" where
  "lowest_clear bm n =
     (1 \<le> n \<and> n < AMIDB_MAX_PAGES \<and> \<not> bitmap_test bm n
      \<and> list_all (\<lambda>j. bitmap_test bm (word_of_nat j)) [1..<unat n])"

text \<open>A writable pager on a working device with pages 0, 1 and 2 in use.\<close>

definition three_used_pager :: amidb_pager where
  "three_used_pager = demo_pager\<lparr>bitmap := 7 # replicate 511 0\<rparr>"

subsection \<open>Cache frames and the file image of a page\<close>

text \<open>A frame holds a page when its state is not \<^verbatim>\<open>CACHE_ENTRY_INVALID\<close>.\<close>

definition valid_entry :: "cache_entry \<Rightarrow> bool" where
  "valid_entry e = (ce_state e \<noteq> CACHE_ENTRY_INVALID)"

text \<open>No two frames hold the same page: the state that \<^verbatim>\<open>cache_get_page\<close> maintains by
  loading a page only after \<^verbatim>\<open>find_entry\<close> has failed.\<close>

definition cache_wf :: "page_cache \<Rightarrow> bool" where
  "cache_wf c =
     (\<forall>i < length (entries c). \<forall>j < length (entries c).
        valid_entry (entries c ! i) \<and> valid_entry (entries c ! j)
        \<and> ce_page_num (entries c ! i) = ce_page_num (entries c ! j) \<longrightarrow> i = j)"






subsection \<open>Updating a page through the cache\<close>














section \<open>Properties\<close>

subsection \<open>Buffers\<close>

lemma length_write_at:
  "off + length xs \<le> length buf \<Longrightarrow> length (write_at buf off xs) = length buf"
  by (simp add: write_at_def)

lemma length_put_u32 [simp]: "length (put_u32 v) = 4"
  by (simp add: put_u32_def)

lemma length_serialize_header [simp]: "length (serialize_header h) = 64"
  by (simp add: serialize_header_def)

lemma length_header_page:
  "length (header_page p) = AMIDB_PAGE_SIZE" if "bitmap_size p \<le> 4032"
proof -
  have "length (take (bitmap_size p) (bitmap p)) \<le> 4032" using that by simp
  then show ?thesis
    by (simp add: header_page_def length_write_at)
qed

subsection \<open>Freeing pages\<close>

lemma bitmap_test_clear:
  "unat n div 8 < length bm \<Longrightarrow> \<not> bitmap_test (bitmap_clear bm n) n"
  by (simp add: bitmap_test_def bitmap_clear_def word_bw_assocs)

text \<open>
  C10. \<^verbatim>\<open>pager_free_page\<close> returns -1 and leaves the whole pager (the in-memory bitmap
  and the file holding the header page) as it was whenever the page number is 0, is
  at least \<^verbatim>\<open>AMIDB_MAX_PAGES\<close>, or names a page whose bit is clear. So page 0 is never
  freed, and freeing again a page that was just freed fails.
\<close>

theorem pager_free_page_rejects:
  "(page_num = 0 \<or> page_num \<ge> AMIDB_MAX_PAGES \<or> \<not> bitmap_test (bitmap p) page_num
      \<longrightarrow> pager_free_page p page_num = (- 1, p))
   \<and> (length (bitmap p) = 512 \<and> pager_free_page p page_num = (0, p')
      \<longrightarrow> pager_free_page p' page_num = (- 1, p'))"
proof (intro conjI impI)
  assume "page_num = 0 \<or> page_num \<ge> AMIDB_MAX_PAGES \<or> \<not> bitmap_test (bitmap p) page_num"
  then show "pager_free_page p page_num = (- 1, p)"
    by (auto simp: pager_free_page_def)
next
  assume a: "length (bitmap p) = 512 \<and> pager_free_page p page_num = (0, p')"
  then have ok: "\<not> (read_only p \<or> page_num = 0 \<or> page_num \<ge> AMIDB_MAX_PAGES)"
    by (auto simp: pager_free_page_def split: if_splits)
  then have lt: "unat page_num < 4096"
    by (simp add: word_less_nat_alt not_le)
  from a ok have bm: "bitmap p' = bitmap_clear (bitmap p) page_num"
    by (auto simp: pager_free_page_def Let_def split: if_splits prod.splits)
  from lt a have "unat page_num div 8 < length (bitmap p)" by simp
  then have "\<not> bitmap_test (bitmap p') page_num"
    unfolding bm by (rule bitmap_test_clear)
  then show "pager_free_page p' page_num = (- 1, p')"
    by (simp add: pager_free_page_def)
qed

theorem pager_free_page_rejects_witness:
  "pager_free_page demo_pager 0 = (- 1, demo_pager)
   \<and> pager_free_page demo_pager 1 = (0, snd (pager_free_page demo_pager 1))
   \<and> pager_free_page (snd (pager_free_page demo_pager 1)) 1
       = (- 1, snd (pager_free_page demo_pager 1))"
proof -
  have t: "bitmap_test (bitmap demo_pager) 1"
    by (simp add: bitmap_test_def demo_pager_def)
  have l: "length (header_page (demo_pager\<lparr>bitmap := bitmap_clear (bitmap demo_pager) 1\<rparr>))
             = AMIDB_PAGE_SIZE"
    by (rule length_header_page) (simp add: demo_pager_def)
  have ok: "pager_free_page demo_pager 1 = (0, snd (pager_free_page demo_pager 1))"
    using t l
    by (simp add: pager_free_page_def file_seek_def file_write_def file_fault_def
        plain_file_def Let_def demo_pager_def split_def word_le_nat_alt)
  have len: "length (bitmap demo_pager) = 512"
    by (simp add: demo_pager_def)
  from pager_free_page_rejects [of 0 demo_pager "snd (pager_free_page demo_pager 1)"]
  have a: "pager_free_page demo_pager 0 = (- 1, demo_pager)" by simp
  from pager_free_page_rejects [of 1 demo_pager "snd (pager_free_page demo_pager 1)"] len ok
  have b: "pager_free_page (snd (pager_free_page demo_pager 1)) 1
             = (- 1, snd (pager_free_page demo_pager 1))" by blast
  from a ok b show ?thesis by blast
qed

subsection \<open>CRC32 and byte order\<close>

lemma crc32_update_append:
  "crc32_update (crc32_update c xs) ys = crc32_update c (xs @ ys)"
  by (simp add: crc32_update_def word_bw_assocs)

lemma upt_2: "[0..<2] = [0, 1::nat]" by code_simp
lemma upt_4: "[0..<4] = [0, 1, 2, 3::nat]" by code_simp
lemma upt_8: "[0..<8] = [0, 1, 2, 3, 4, 5, 6, 7::nat]" by code_simp

lemma le_bytes_2: "le_bytes 2 v = [ucast v, ucast (drop_bit 8 v)]"
  by (simp add: le_bytes_def upt_2)

lemma le_bytes_4:
  "le_bytes 4 v = [ucast v, ucast (drop_bit 8 v), ucast (drop_bit 16 v), ucast (drop_bit 24 v)]"
  by (simp add: le_bytes_def upt_4)

lemma le_bytes_8:
  "le_bytes 8 v = [ucast v, ucast (drop_bit 8 v), ucast (drop_bit 16 v), ucast (drop_bit 24 v),
     ucast (drop_bit 32 v), ucast (drop_bit 40 v), ucast (drop_bit 48 v), ucast (drop_bit 56 v)]"
  by (simp add: le_bytes_def upt_8)

lemma bit_shift_back: "k \<le> n \<Longrightarrow> bit v (k + (n - k)) = bit v n" for v :: "'a::len word"
  by simp

lemma le_word_bytes_4: "le_word (le_bytes 4 (v :: u32)) = v"
proof (rule bit_word_eqI)
  fix n assume "n < LENGTH(32)"
  then have n: "n < 32" by simp
  consider "n < 8" | "8 \<le> n" "n < 16" | "16 \<le> n" "n < 24" | "24 \<le> n" "n < 32"
    using n by linarith
  then show "bit (le_word (le_bytes 4 v) :: u32) n = bit v n"
    by cases (auto simp: le_bytes_4 le_word_def bit_simps)
qed

lemma le_word_bytes_2: "le_word (le_bytes 2 (v :: u16)) = v"
proof (rule bit_word_eqI)
  fix n assume "n < LENGTH(16)"
  then have n: "n < 16" by simp
  consider "n < 8" | "8 \<le> n" "n < 16"
    using n by linarith
  then show "bit (le_word (le_bytes 2 v) :: u16) n = bit v n"
    by cases (auto simp: le_bytes_2 le_word_def bit_simps)
qed

lemma le_word_bytes_8: "le_word (le_bytes 8 (v :: u64)) = v"
proof (rule bit_word_eqI)
  fix n assume "n < LENGTH(64)"
  then have n: "n < 64" by simp
  consider "n < 8" | "8 \<le> n" "n < 16" | "16 \<le> n" "n < 24" | "24 \<le> n" "n < 32"
    | "32 \<le> n" "n < 40" | "40 \<le> n" "n < 48" | "48 \<le> n" "n < 56" | "56 \<le> n" "n < 64"
    using n by linarith
  then show "bit (le_word (le_bytes 8 v) :: u64) n = bit v n"
    by cases (auto simp: le_bytes_8 le_word_def bit_simps)
qed

lemma crc32_table_unfold:
  "crc32_table i =
     crc32_bit (crc32_bit (crc32_bit (crc32_bit (crc32_bit (crc32_bit (crc32_bit (crc32_bit i)))))))"
  by (simp add: crc32_table_def eval_nat_numeral)

lemmas crc32_eval = crc32_compute_def crc32_update_def crc32_step_def crc32_table_unfold crc32_bit_def

lemma write_at_inside:
  "off + length xs \<le> length buf \<Longrightarrow>
     write_at buf off xs = take off buf @ xs @ drop (off + length xs) buf"
  by (simp add: write_at_def)

lemma length_le_bytes [simp]: "length (le_bytes n v) = n"
  by (simp add: le_bytes_def)

lemma length_native_bytes [simp]: "length (native_bytes bo n v) = n"
  by (cases bo) (simp_all add: native_bytes_def)

lemma native_word_bytes_2 [simp]: "native_word bo (native_bytes bo 2 (v :: u16)) = v"
  by (cases bo) (simp_all add: native_word_def native_bytes_def le_word_bytes_2)

lemma native_word_bytes_4 [simp]: "native_word bo (native_bytes bo 4 (v :: u32)) = v"
  by (cases bo) (simp_all add: native_word_def native_bytes_def le_word_bytes_4)

lemma native_word_bytes_8 [simp]: "native_word bo (native_bytes bo 8 (v :: u64)) = v"
  by (cases bo) (simp_all add: native_word_def native_bytes_def le_word_bytes_8)

lemma length_header_bytes [simp]: "length (header_bytes bo h) = 24"
  by (simp add: header_bytes_def)

lemma parse_header_bytes: "parse_header bo (header_bytes bo h @ rest) = h"
  by (simp add: parse_header_def header_bytes_def slice_def)

lemma take_20_header_bytes:
  "take 20 (header_bytes bo (h\<lparr>h_checksum := c\<rparr>)) = take 20 (header_bytes bo h)"
  by (simp add: header_bytes_def)

lemma crc32_update_Nil [simp]: "crc32_update c [] = c"
  by (simp add: crc32_update_def word_bw_assocs)

lemma wal_write_record_fits:
  assumes len: "length (buffer wal) = 32768"
    and fits: "unat (buffer_used wal) + 24 + unat payload_size \<le> 32768"
    and pl: "case payload of None \<Rightarrow> payload_size = 0 | Some pl \<Rightarrow> unat payload_size \<le> length pl"
  shows "wal_write_record bo wal type payload payload_size =
     (AMIDB_OK,
      wal\<lparr>buffer := take (unat (buffer_used wal)) (buffer wal)
               @ header_bytes bo (built_header bo wal type payload payload_size)
               @ payload_bytes payload payload_size
               @ drop (unat (buffer_used wal) + 24 + unat payload_size) (buffer wal),
          buffer_used := buffer_used wal + (24 + payload_size),
          total_records := total_records wal + 1\<rparr>)"
proof -
  have rs: "unat (24 + payload_size) = 24 + unat payload_size"
    using fits by (simp add: unat_word_ariths)
  have tot: "unat (buffer_used wal + (24 + payload_size)) = unat (buffer_used wal) + 24 + unat payload_size"
    using fits rs by (simp add: unat_word_ariths)
  have nofull: "\<not> buffer_used wal + (24 + payload_size) > WAL_BUFFER_SIZE"
    using fits tot by (simp add: word_less_nat_alt)
  have lp: "length (payload_bytes payload payload_size) = unat payload_size"
    using pl by (auto simp: payload_bytes_def split: option.splits)
  have z: "payload_size > 0 \<longleftrightarrow> unat payload_size \<noteq> 0"
    by (simp add: word_less_nat_alt unat_gt_0 unat_eq_zero)
  show ?thesis
  proof (cases payload)
    case None
    with pl have "payload_size = 0" by simp
    with None nofull len fits show ?thesis
      by (simp add: wal_write_record_def Let_def write_at_inside built_header_def payload_bytes_def)
  next
    case (Some pld)
    show ?thesis
    proof (cases "payload_size = 0")
      case True
      with Some nofull len fits show ?thesis
        by (simp add: wal_write_record_def Let_def write_at_inside built_header_def payload_bytes_def)
    next
      case False
      then have pos: "payload_size > 0" by (simp add: word_greater_zero_iff)
      have l2: "length (take (unat payload_size) pld) = unat payload_size"
        using lp Some by (simp add: payload_bytes_def)
      from Some nofull len fits pos l2 show ?thesis
        by (simp add: wal_write_record_def Let_def write_at_inside built_header_def payload_bytes_def
            min_absorb2 ac_simps)
    qed
  qed
qed

lemma wal_verify_built:
  assumes fits: "24 + unat payload_size < 2 ^ 32"
    and lp: "length pb = unat payload_size"
    and ck: "h_checksum h = crc32_update (crc32_update 0 (take 20 (header_bytes bo h))) pb"
    and rs: "h_record_size h = 24 + payload_size"
  shows "wal_verify_checksum bo (header_bytes bo h @ pb @ rest) (24 + payload_size)"
proof -
  have u: "unat (24 + payload_size) = 24 + unat payload_size"
    using fits by (simp add: unat_word_ariths)
  then have ge: "\<not> 24 + payload_size < 24"
    by (simp add: word_less_nat_alt)
  have e: "\<not> 0 < payload_size \<Longrightarrow> pb = []"
    using lp by (simp add: word_greater_zero_iff)
  show ?thesis
    using ge lp ck rs e
    by (auto simp: wal_verify_checksum_def Let_def parse_header_bytes [where rest = "[]", simplified])
qed

subsection \<open>WAL record checksums\<close>

text \<open>
  C4 (amended). For a record that fits into the buffer and whose payload pointer is
  either NULL with size 0 or holds the announced bytes, \<^verbatim>\<open>wal_write_record\<close> succeeds,
  the checksum stored in the record is the CRC32 of the 20 header bytes before the
  checksum field followed by the payload bytes (computed in two \<^verbatim>\<open>crc32_update\<close> steps
  or in one pass, the value is the same), and \<^verbatim>\<open>wal_verify_checksum\<close> accepts the record
  as it lies in the buffer. The checksum field is skipped, not hashed as zero.
\<close>

theorem wal_record_checksum:
  assumes "length (buffer wal) = 32768"
    and "unat (buffer_used wal) + 24 + unat payload_size \<le> 32768"
    and "case payload of None \<Rightarrow> payload_size = 0 | Some pl \<Rightarrow> unat payload_size \<le> length pl"
  shows "let (rc, wal') = wal_write_record bo wal type payload payload_size;
             r = slice (buffer wal') (unat (buffer_used wal)) (24 + unat payload_size)
         in rc = AMIDB_OK
            \<and> h_checksum (parse_header bo r) = crc32_update (crc32_update 0 (take 20 r)) (drop 24 r)
            \<and> h_checksum (parse_header bo r) = crc32_compute (take 20 r @ drop 24 r)
            \<and> wal_verify_checksum bo (drop (unat (buffer_used wal)) (buffer wal')) (24 + payload_size)"
proof -
  let ?h = "built_header bo wal type payload payload_size"
  let ?pb = "payload_bytes payload payload_size"
  let ?u = "unat (buffer_used wal)"
  have lp: "length ?pb = unat payload_size"
    using assms(3) by (auto simp: payload_bytes_def split: option.splits)
  have ck: "h_checksum ?h = crc32_update (crc32_update 0 (take 20 (header_bytes bo ?h))) ?pb"
    by (simp add: built_header_def header_bytes_def)
  have ul: "?u \<le> length (buffer wal)" using assms(1,2) by simp
  have v: "wal_verify_checksum bo
             (header_bytes bo ?h @ ?pb @ drop (?u + 24 + unat payload_size) (buffer wal))
             (24 + payload_size)"
    by (rule wal_verify_built) (use assms(2) lp ck in \<open>simp_all add: built_header_def\<close>)
  have r: "slice (take ?u (buffer wal) @ header_bytes bo ?h @ ?pb
                  @ drop (?u + 24 + unat payload_size) (buffer wal)) ?u (24 + unat payload_size)
           = header_bytes bo ?h @ ?pb"
    using ul lp by (simp add: slice_def min_absorb2)
  show ?thesis
    unfolding wal_write_record_fits [OF assms]
    using ul v ck lp
    by (simp add: r parse_header_bytes crc32_compute_def crc32_update_append min_absorb2)
qed

lemma wal_create_fits:
  "length (buffer wal_create) = 32768" "unat (buffer_used wal_create) = 0"
  by (simp_all add: wal_create_def)

theorem wal_record_checksum_witness:
  "length (buffer wal_create) = 32768
   \<and> unat (buffer_used wal_create) + 24 + unat (4100 :: u32) \<le> 32768
   \<and> (let (rc, wal') = wal_write_record Big_Endian wal_create WAL_PAGE (Some (replicate 4100 7)) 4100;
           r = slice (buffer wal') (unat (buffer_used wal_create)) (24 + unat (4100 :: u32))
       in rc = AMIDB_OK
          \<and> h_checksum (parse_header Big_Endian r)
              = crc32_update (crc32_update 0 (take 20 r)) (drop 24 r)
          \<and> h_checksum (parse_header Big_Endian r) = crc32_compute (take 20 r @ drop 24 r)
          \<and> wal_verify_checksum Big_Endian
               (drop (unat (buffer_used wal_create)) (buffer wal')) (24 + 4100))"
proof -
  have h1: "length (buffer wal_create) = 32768"
    by (simp add: wal_create_def)
  have h2: "unat (buffer_used wal_create) + 24 + unat (4100 :: u32) \<le> 32768"
    by (simp add: wal_create_def)
  have h3: "case Some (replicate 4100 (7 :: u8)) of None \<Rightarrow> (4100 :: u32) = 0
            | Some pl \<Rightarrow> unat (4100 :: u32) \<le> length pl"
    by simp
  from h1 h2 wal_record_checksum [OF h1 h2 h3, of Big_Endian WAL_PAGE]
  show ?thesis by (intro conjI)
qed

text \<open>
  C4 as stated fails: for the BEGIN record of a fresh WAL context (big-endian machine)
  the stored checksum is 0x37F904F8, while the CRC32 of the whole 24-byte record with
  the checksum field set to zero is 0x185CB673.
\<close>

theorem wal_checksum_skips_field:
  "let r = slice (buffer (snd (wal_write_record Big_Endian wal_create WAL_BEGIN None 0))) 0 24
   in h_checksum (parse_header Big_Endian r) = 0x37F904F8
      \<and> crc32_compute (take 20 r @ [0, 0, 0, 0] @ drop 24 r) = 0x185CB673
      \<and> h_checksum (parse_header Big_Endian r)
          \<noteq> crc32_compute (take 20 r @ [0, 0, 0, 0] @ drop 24 r)"
proof -
  have h1: "length (buffer wal_create) = 32768"
    by (simp add: wal_create_def)
  have h2: "unat (buffer_used wal_create) + 24 + unat (0 :: u32) \<le> 32768"
    by (simp add: wal_create_def)
  have h3: "case None of None \<Rightarrow> (0 :: u32) = 0 | Some pl \<Rightarrow> unat (0 :: u32) \<le> length pl"
    by simp
  have hb: "take 20 (header_bytes Big_Endian
        \<lparr>h_magic = WAL_MAGIC, h_record_type = WAL_BEGIN, h_flags = 0, h_record_size = 24 + 0,
         h_txn_id = current_txn_id wal_create, h_checksum = c\<rparr>)
      = [0x57, 0x41, 0x4C, 0x52, 0, 1, 0, 0, 0, 0, 0, 0x18, 0, 0, 0, 0, 0, 0, 0, 0]" for c
    by (simp add: header_bytes_def native_bytes_def le_bytes_2 le_bytes_4
        le_bytes_8 wal_create_def)
  have c1: "crc32_compute [0x57, 0x41, 0x4C, 0x52, 0, 1, 0, 0, 0, 0, 0, 0x18, 0, 0, 0, 0, 0, 0, 0, 0]
      = 0x37F904F8"
    by (simp add: crc32_eval)
  have c2: "crc32_compute [0x57, 0x41, 0x4C, 0x52, 0, 1, 0, 0, 0, 0, 0, 0x18, 0, 0, 0, 0, 0, 0, 0, 0,
                0, 0, 0, 0] = 0x185CB673"
    by (simp add: crc32_eval)
  have ck: "h_checksum (built_header Big_Endian wal_create WAL_BEGIN None 0) = 0x37F904F8"
    unfolding built_header_def using c1 by (simp only: hb) (simp add: payload_bytes_def crc32_compute_def)
  have hb': "take 20 (header_bytes Big_Endian (built_header Big_Endian wal_create WAL_BEGIN None 0))
      = [0x57, 0x41, 0x4C, 0x52, 0, 1, 0, 0, 0, 0, 0, 0x18, 0, 0, 0, 0, 0, 0, 0, 0]"
    unfolding built_header_def by (rule hb)
  show ?thesis
    unfolding wal_write_record_fits [OF h1 h2 h3]
    using hb' c2 ck
    by (simp add: slice_def wal_create_def parse_header_bytes [where rest = "[]", simplified] Let_def)
qed

subsection \<open>WAL buffer space\<close>




text \<open>
  Outside that contract, at \<^verbatim>\<open>wal_write_record(wal, WAL_BEGIN, NULL, 0xFFFFFFE8)\<close> on a
  fresh context, \<^verbatim>\<open>record_size\<close> wraps around to 0: the space check passes, the call
  returns \<^verbatim>\<open>AMIDB_OK\<close>, and a header has been written into the buffer.
\<close>

lemma wal_write_record_size_wraps:
  "fst (wal_write_record Big_Endian wal_create WAL_BEGIN None 0xFFFFFFE8) = AMIDB_OK
   \<and> take 4 (buffer (snd (wal_write_record Big_Endian wal_create WAL_BEGIN None 0xFFFFFFE8)))
       = [0x57, 0x41, 0x4C, 0x52]
   \<and> take 4 (buffer wal_create) = [0, 0, 0, 0]
   \<and> total_records (snd (wal_write_record Big_Endian wal_create WAL_BEGIN None 0xFFFFFFE8)) = 1
   \<and> 24 + unat (0xFFFFFFE8 :: u32) > 32768 - unat (buffer_used wal_create)"
proof -
  have z: "(24 :: u32) + 0xFFFFFFE8 = 0"
    by (simp add: word_eq_iff_unsigned [where ?'a = nat])
  have r: "replicate 32768 (0 :: u8) = replicate 4 0 @ replicate 32764 0"
    by (simp add: replicate_add [symmetric])
  have r4: "replicate 4 (0 :: u8) = [0, 0, 0, 0]"
    by (simp add: numeral_eq_Suc)
  show ?thesis
    by (simp add: wal_write_record_def z wal_create_def Let_def write_at_def header_bytes_def
        native_bytes_def le_bytes_4 r r4)
qed

subsection \<open>The transaction state machine\<close>

text \<open>
  C6 (amended). \<^verbatim>\<open>txn_begin\<close> outside Idle returns \<^verbatim>\<open>AMIDB_BUSY\<close> and \<^verbatim>\<open>txn_commit\<close> outside
  Active returns \<^verbatim>\<open>AMIDB_ERROR\<close>, both leaving every object untouched; a successful
  begin starts in Idle and ends in Active, a successful commit starts in Active and ends
  in Idle. \<^verbatim>\<open>txn_abort\<close> has no state check: from every state it returns \<^verbatim>\<open>AMIDB_OK\<close>,
  ends in Idle and counts one more abort.
\<close>

theorem txn_state_machine:
  "(t_state (db_txn d) \<noteq> TXN_STATE_IDLE \<longrightarrow> txn_begin bo d = (AMIDB_BUSY, d))
   \<and> (t_state (db_txn d) \<noteq> TXN_STATE_ACTIVE \<longrightarrow> txn_commit bo d = (AMIDB_ERROR, d))
   \<and> (fst (txn_begin bo d) = AMIDB_OK \<longrightarrow>
        t_state (db_txn d) = TXN_STATE_IDLE
        \<and> t_state (db_txn (snd (txn_begin bo d))) = TXN_STATE_ACTIVE)
   \<and> (fst (txn_commit bo d) = AMIDB_OK \<longrightarrow>
        t_state (db_txn d) = TXN_STATE_ACTIVE
        \<and> t_state (db_txn (snd (txn_commit bo d))) = TXN_STATE_IDLE)
   \<and> fst (txn_abort d) = AMIDB_OK
   \<and> t_state (db_txn (snd (txn_abort d))) = TXN_STATE_IDLE
   \<and> abort_count (db_txn (snd (txn_abort d))) = abort_count (db_txn d) + 1"
proof -
  have ab: "fst (txn_abort x) = AMIDB_OK" "t_state (db_txn (snd (txn_abort x))) = TXN_STATE_IDLE"
    "abort_count (db_txn (snd (txn_abort x))) = abort_count (db_txn x) + 1" for x
    by (simp_all add: txn_abort_def Let_def split_def)
  have b: "fst (txn_begin bo d) = AMIDB_OK \<longrightarrow>
        t_state (db_txn d) = TXN_STATE_IDLE
        \<and> t_state (db_txn (snd (txn_begin bo d))) = TXN_STATE_ACTIVE"
    by (simp add: txn_begin_def Let_def split_def)
  have c: "t_state (db_txn d) = TXN_STATE_ACTIVE
        \<and> t_state (db_txn (snd (txn_commit bo d))) = TXN_STATE_IDLE"
    if ok: "fst (txn_commit bo d) = AMIDB_OK"
  proof -
    from ok have act: "t_state (db_txn d) = TXN_STATE_ACTIVE"
      by (auto simp: txn_commit_def split: if_splits)
    define t0 where "t0 = (db_txn d)\<lparr>t_state := TXN_STATE_COMMITTING\<rparr>"
    define dirty where "dirty = used (dirty_count t0) (dirty_pages t0)"
    obtain rc1 w1 logged where
      l: "commit_log_pages bo (db_cache d) (db_wal d) (pages_logged t0) dirty = (rc1, w1, logged)"
      by (cases "commit_log_pages bo (db_cache d) (db_wal d) (pages_logged t0) dirty") auto
    obtain rc2 w2 where r2: "wal_write_record bo w1 WAL_COMMIT None 0 = (rc2, w2)"
      by (cases "wal_write_record bo w1 WAL_COMMIT None 0") auto
    obtain rc3 w3 p3 where r3: "wal_flush w2 (db_pager d) = (rc3, w3, p3)"
      by (cases "wal_flush w2 (db_pager d)") auto
    obtain c4 p4 where r4: "commit_checkpoint (db_cache d) p3 dirty = (c4, p4)"
      by (cases "commit_checkpoint (db_cache d) p3 dirty") auto
    note defs = txn_commit_def act t0_def [symmetric] dirty_def [symmetric] Let_def
    have z1: "rc1 = 0"
      using ok ab(1) by (simp add: defs l split: if_splits)
    have z2: "rc2 = 0"
      using ok ab(1) by (simp add: defs l z1 r2 split: if_splits)
    have z3: "rc3 = 0"
      using ok by (simp add: defs l z1 r2 z2 r3 split: if_splits)
    have "t_state (db_txn (snd (txn_commit bo d))) = TXN_STATE_IDLE"
      by (simp add: defs l z1 r2 z2 r3 z3 r4)
    with act show ?thesis by simp
  qed
  have g1: "t_state (db_txn d) \<noteq> TXN_STATE_IDLE \<longrightarrow> txn_begin bo d = (AMIDB_BUSY, d)"
    by (simp add: txn_begin_def)
  have g2: "t_state (db_txn d) \<noteq> TXN_STATE_ACTIVE \<longrightarrow> txn_commit bo d = (AMIDB_ERROR, d)"
    by (simp add: txn_commit_def)
  from g1 g2 b c ab [of d] show ?thesis by blast
qed


lemma demo_begin_ok: "fst (txn_begin Big_Endian demo_db) = AMIDB_OK"
  by (simp add: txn_begin_def demo_db_def txn_create_def wal_create_def wal_write_record_def
      Let_def split_def)

lemma demo_begin:
  "txn_begin Big_Endian demo_db =
     (AMIDB_OK, demo_db\<lparr>db_txn := txn_create\<lparr>t_state := TXN_STATE_ACTIVE, t_txn_id := 1\<rparr>,
        db_wal := snd (wal_write_record Big_Endian (wal_create\<lparr>current_txn_id := 1\<rparr>) WAL_BEGIN None 0)\<rparr>)"
  by (simp add: txn_begin_def demo_db_def txn_create_def wal_create_def wal_write_record_def
      Let_def split_def)

lemma wal_write_record_fits_props:
  assumes "length (buffer wal) = 32768"
    and "unat (buffer_used wal) + 24 + unat payload_size \<le> 32768"
    and "case payload of None \<Rightarrow> payload_size = 0 | Some pl \<Rightarrow> unat payload_size \<le> length pl"
  shows "fst (wal_write_record bo wal type payload payload_size) = AMIDB_OK"
    and "length (buffer (snd (wal_write_record bo wal type payload payload_size))) = 32768"
    and "buffer_used (snd (wal_write_record bo wal type payload payload_size))
           = buffer_used wal + (24 + payload_size)"
    and "w_wal_head (snd (wal_write_record bo wal type payload payload_size)) = w_wal_head wal"
proof -
  have lp: "length (payload_bytes payload payload_size) = unat payload_size"
    using assms(3) by (auto simp: payload_bytes_def split: option.splits)
  show "fst (wal_write_record bo wal type payload payload_size) = AMIDB_OK"
    "buffer_used (snd (wal_write_record bo wal type payload payload_size))
           = buffer_used wal + (24 + payload_size)"
    "w_wal_head (snd (wal_write_record bo wal type payload payload_size)) = w_wal_head wal"
    by (simp_all add: wal_write_record_fits [OF assms])
  show "length (buffer (snd (wal_write_record bo wal type payload payload_size))) = 32768"
    using assms(1,2) lp by (simp add: wal_write_record_fits [OF assms])
qed

lemma demo_commit_ok:
  "fst (txn_commit Big_Endian (snd (txn_begin Big_Endian demo_db))) = AMIDB_OK"
proof -
  define w0 where "w0 = wal_create\<lparr>current_txn_id := 1\<rparr>"
  define w1 where "w1 = snd (wal_write_record Big_Endian w0 WAL_BEGIN None 0)"
  define w2 where "w2 = snd (wal_write_record Big_Endian w1 WAL_COMMIT None 0)"
  have n: "case None of None \<Rightarrow> (0 :: u32) = 0 | Some pl \<Rightarrow> unat (0 :: u32) \<le> length pl"
    by simp
  have a0: "length (buffer w0) = 32768" "unat (buffer_used w0) + 24 + unat (0 :: u32) \<le> 32768"
    by (simp_all add: w0_def wal_create_def)
  note p1 = wal_write_record_fits_props [OF a0 n, of Big_Endian WAL_BEGIN, folded w1_def]
  have u1: "buffer_used w1 = 24" using p1(3) by (simp add: w0_def wal_create_def)
  have a1: "length (buffer w1) = 32768" "unat (buffer_used w1) + 24 + unat (0 :: u32) \<le> 32768"
    using p1(2) u1 by simp_all
  note p2 = wal_write_record_fits_props [OF a1 n, of Big_Endian WAL_COMMIT, folded w2_def]
  have u2: "buffer_used w2 = 48" using p2(3) u1 by simp
  have h2: "w_wal_head w2 = 0" using p2(4) p1(4) by (simp add: w0_def wal_create_def)
  have r2: "wal_write_record Big_Endian w1 WAL_COMMIT None 0 = (0, w2)"
    using p2(1) by (simp add: w2_def prod_eq_iff)
  have fl: "fst (wal_flush w2 demo_pager) = AMIDB_OK"
    using p2(2)
    by (simp add: wal_flush_def u2 h2 file_seek_def file_write_def file_fault_def demo_pager_def
        plain_file_def Let_def split_def)
  have d1: "snd (txn_begin Big_Endian demo_db)
      = demo_db\<lparr>db_txn := txn_create\<lparr>t_state := TXN_STATE_ACTIVE, t_txn_id := 1\<rparr>, db_wal := w1\<rparr>"
    by (simp add: demo_begin w1_def w0_def)
  obtain rc3 w3 p3 where r3: "wal_flush w2 demo_pager = (rc3, w3, p3)"
    by (cases "wal_flush w2 demo_pager") auto
  with fl have z3: "rc3 = 0" by simp
  show ?thesis
    unfolding d1
    by (simp add: txn_commit_def demo_db_def txn_create_def used_def r2 r3 z3 split_def)
qed

theorem txn_state_machine_witness:
  "t_state (db_txn committing_db) \<noteq> TXN_STATE_IDLE
   \<and> t_state (db_txn committing_db) \<noteq> TXN_STATE_ACTIVE
   \<and> txn_begin Big_Endian committing_db = (AMIDB_BUSY, committing_db)
   \<and> txn_commit Big_Endian committing_db = (AMIDB_ERROR, committing_db)
   \<and> fst (txn_begin Big_Endian demo_db) = AMIDB_OK
   \<and> t_state (db_txn (snd (txn_begin Big_Endian demo_db))) = TXN_STATE_ACTIVE
   \<and> fst (txn_commit Big_Endian (snd (txn_begin Big_Endian demo_db))) = AMIDB_OK
   \<and> t_state (db_txn (snd (txn_commit Big_Endian (snd (txn_begin Big_Endian demo_db)))))
       = TXN_STATE_IDLE"
proof -
  have n: "t_state (db_txn committing_db) \<noteq> TXN_STATE_IDLE"
    "t_state (db_txn committing_db) \<noteq> TXN_STATE_ACTIVE"
    by (simp_all add: committing_db_def txn_create_def)
  note a = txn_state_machine [of committing_db Big_Endian]
  note b = txn_state_machine [of demo_db Big_Endian]
  note c = txn_state_machine [of "snd (txn_begin Big_Endian demo_db)" Big_Endian]
  from n a b c demo_begin_ok demo_commit_ok show ?thesis by blast
qed

text \<open>
  C6 as stated fails: \<^verbatim>\<open>txn_abort\<close> on an idle transaction succeeds and changes the state.
\<close>

theorem txn_abort_from_idle:
  "t_state (db_txn demo_db) = TXN_STATE_IDLE
   \<and> fst (txn_abort demo_db) = AMIDB_OK
   \<and> snd (txn_abort demo_db) \<noteq> demo_db
   \<and> abort_count (db_txn (snd (txn_abort demo_db))) = 1"
proof -
  have a: "abort_count (db_txn (snd (txn_abort demo_db))) = 1"
    by (simp add: txn_abort_def Let_def split_def demo_db_def txn_create_def)
  have b: "abort_count (db_txn demo_db) = 0"
    by (simp add: demo_db_def txn_create_def)
  from a b have "snd (txn_abort demo_db) \<noteq> demo_db" by auto
  then show ?thesis
    using a by (simp add: txn_abort_def Let_def split_def demo_db_def txn_create_def)
qed

subsection \<open>The row codec\<close>

lemma take_used_2: "take (unat (2 :: u32)) (a # b # xs) = [a, b]"
  by simp

lemma sz12: "row_get_serialized_size empty_text_row = 12"
  by (simp add: row_get_serialized_size_def empty_text_row_def column_size_def blob_size_def)

lemma ser: "row_serialize empty_text_row [9, 9, 9, 9, 9, 9, 9, 9, 9, 9, 9, 9] 12
   = (12, [2, 0, 2, 0, 0, 0, 0, 1, 1, 0, 0, 0])"
  apply (simp add: row_serialize_def sz12)
  apply (simp add: empty_text_row_def write_at_def put_u16_def put_u32_def
      value_type_def blob_size_def Let_def)
  done

lemma row_init_put0: "row_put row_init 0 v = \<lparr>column_count = 1, rvalues = v # replicate 31 VNull\<rparr>"
proof -
  have "replicate 32 VNull = VNull # replicate 31 VNull"
    by (simp add: replicate_Suc [symmetric] del: replicate_Suc)
  then show ?thesis
    by (simp add: row_put_def row_init_def Let_def)
qed

lemma row_put1:
  "row_put \<lparr>column_count = 1, rvalues = a # replicate 31 VNull\<rparr> 1 v
     = \<lparr>column_count = 2, rvalues = a # v # replicate 30 VNull\<rparr>"
proof -
  have "replicate 31 VNull = VNull # replicate 30 VNull"
    by (simp add: replicate_Suc [symmetric] del: replicate_Suc)
  then show ?thesis
    by (simp add: row_put_def Let_def)
qed

lemma strlen_110: "c_strlen [1, 1, 0, 0, 0] = Some 2"
  by (simp add: c_strlen_def)

lemma deser: "row_deserialize row_init [2, 0, 2, 0, 0, 0, 0, 1, 1, 0, 0, 0] 12
   = Some (12, \<lparr>column_count = 2, rvalues = VText [1, 1] # VInteger 1 # replicate 30 VNull\<rparr>)"
proof -
  have g: "get_u16 [2, 0, 2, 0, 0, 0, 0, 1, 1, 0, 0, 0] = 2"
    by (simp add: get_u16_def)
  have g0: "get_u32 [0, 0, 0, 0, 1, 1, 0, 0, 0] = 0"
    by (simp add: get_u32_def)
  have g1: "get_u32 [1, 0, 0, 0] = 1"
    by (simp add: get_u32_def)
  have two: "deserialize_columns 2 i r m b off = deserialize_columns (Suc (Suc 0)) i r m b off"
    for i r m b off
    by (simp add: numeral_2_eq_2)
  show ?thesis
    by (simp add: row_deserialize_def g two Let_def g0 g1 row_set_text_def strlen_110
        row_init_put0 row_put1 row_set_int_def word_le_nat_alt)
qed

text \<open>
  C5 at the row with an empty TEXT in column 0 and the INTEGER 1 in column 1.
  \<^verbatim>\<open>row_serialize\<close> writes 12 bytes, as \<^verbatim>\<open>row_get_serialized_size\<close> announces. Reading them
  back, \<^verbatim>\<open>row_deserialize\<close> passes the stored size 0 to \<^verbatim>\<open>row_set_text\<close>, which takes 0
  to mean "use the C string length" and copies the two bytes that follow (the type tag
  and the low byte of the integer): column 0 comes back as a TEXT of two bytes.
\<close>

theorem row_roundtrip_empty_text:
  "row_serialize empty_text_row [9, 9, 9, 9, 9, 9, 9, 9, 9, 9, 9, 9] 12
     = (12, [2, 0, 2, 0, 0, 0, 0, 1, 1, 0, 0, 0])
   \<and> row_get_serialized_size empty_text_row = 12
   \<and> row_deserialize row_init [2, 0, 2, 0, 0, 0, 0, 1, 1, 0, 0, 0] 12
     = Some (12, \<lparr>column_count = 2, rvalues = VText [1, 1] # VInteger 1 # replicate 30 VNull\<rparr>)
   \<and> \<lparr>column_count = 2, rvalues = VText [1, 1] # VInteger 1 # replicate 30 VNull\<rparr>
       \<noteq> empty_text_row"
  by (simp add: ser deser sz12) (simp add: empty_text_row_def)

lemma empty_text_row_built:
  "(case row_set_text row_init 0 [0] 0 of
      None \<Rightarrow> False
    | Some (rc, r1) \<Rightarrow> rc = 0 \<and> row_set_int r1 1 1 = (0, empty_text_row))"
  by (auto simp: row_set_text_def c_strlen_def row_init_put0 row_set_int_def row_put1
      empty_text_row_def word_le_nat_alt)

subsection \<open>Page allocation\<close>


lemma pager_allocate_page_works:
  assumes "\<not> read_only p" and "find_free_bit (bitmap p) 1 = Some i"
    and "bitmap_size p \<le> 4032" and "f_faults (file_handle p) = []"
  shows "fst (pager_allocate_page p) = 0"
    and "fst (snd (pager_allocate_page p)) = i"
    and "bitmap (snd (snd (pager_allocate_page p))) = bitmap_set (bitmap p) i"
    and "read_only (snd (snd (pager_allocate_page p))) = read_only p"
    and "bitmap_size (snd (snd (pager_allocate_page p))) = bitmap_size p"
    and "f_faults (file_handle (snd (snd (pager_allocate_page p)))) = []"
proof -
  have l: "length (header_page q) = AMIDB_PAGE_SIZE" if "bitmap_size q = bitmap_size p" for q
    using that assms(3) by (simp add: length_header_page)
  note defs = pager_allocate_page_def assms Let_def split_def file_seek_def file_write_def
    file_fault_def file_tick_def l
  show "fst (pager_allocate_page p) = 0" by (simp add: defs)
  show "fst (snd (pager_allocate_page p)) = i" by (simp add: defs)
  show "bitmap (snd (snd (pager_allocate_page p))) = bitmap_set (bitmap p) i" by (simp add: defs)
  show "read_only (snd (snd (pager_allocate_page p))) = read_only p" by (simp add: defs)
  show "bitmap_size (snd (snd (pager_allocate_page p))) = bitmap_size p" by (simp add: defs)
  show "f_faults (file_handle (snd (snd (pager_allocate_page p)))) = []" by (simp add: defs)
qed

lemma find_free_bit_step:
  "i < AMIDB_MAX_PAGES \<Longrightarrow> bitmap_test bm i \<Longrightarrow> find_free_bit bm i = find_free_bit bm (i + 1)"
  "i < AMIDB_MAX_PAGES \<Longrightarrow> \<not> bitmap_test bm i \<Longrightarrow> find_free_bit bm i = Some i"
  by (subst find_free_bit.simps, simp)+

lemma find_demo_1: "find_free_bit (3 # replicate 511 0) 1 = Some 2"
  by (simp add: find_free_bit_step bitmap_test_def)

lemma find_demo_2: "find_free_bit (7 # replicate 511 0) 1 = Some 3"
  by (simp add: find_free_bit_step bitmap_test_def)

lemma set_demo: "bitmap_set (3 # replicate 511 0) 2 = 7 # replicate 511 0"
  by (simp add: bitmap_set_def)

lemma find_free_bit_Some:
  "find_free_bit bm i = Some n \<longleftrightarrow>
     i \<le> n \<and> n < AMIDB_MAX_PAGES \<and> \<not> bitmap_test bm n
     \<and> (\<forall>j. unat i \<le> j \<and> j < unat n \<longrightarrow> bitmap_test bm (word_of_nat j))"
proof (induction bm i rule: find_free_bit.induct)
  case (1 bm i)
  show ?case
  proof (cases "i < AMIDB_MAX_PAGES")
    case False
    then have "find_free_bit bm i = None" by (subst find_free_bit.simps) simp
    moreover have "\<not> (i \<le> n \<and> n < AMIDB_MAX_PAGES)" using False by auto
    ultimately show ?thesis by (metis option.distinct(1))
  next
    case lt: True
    then have ui: "unat i < 4096" by (simp add: word_less_nat_alt)
    then have ui1: "unat (i + 1) = unat i + 1" by (simp add: unat_word_ariths)
    show ?thesis
    proof (cases "bitmap_test bm i")
      case False
      then have f: "find_free_bit bm i = Some i" using lt by (simp add: find_free_bit_step)
      show ?thesis
      proof
        assume "find_free_bit bm i = Some n"
        with f have "n = i" by simp
        with lt False show "i \<le> n \<and> n < AMIDB_MAX_PAGES \<and> \<not> bitmap_test bm n
     \<and> (\<forall>j. unat i \<le> j \<and> j < unat n \<longrightarrow> bitmap_test bm (word_of_nat j))" by auto
      next
        assume r: "i \<le> n \<and> n < AMIDB_MAX_PAGES \<and> \<not> bitmap_test bm n
     \<and> (\<forall>j. unat i \<le> j \<and> j < unat n \<longrightarrow> bitmap_test bm (word_of_nat j))"
        have "n = i"
        proof (rule ccontr)
          assume "n \<noteq> i"
          with r have "unat i < unat n" by (simp add: word_le_nat_alt word_unat_eq_iff)
          with r have "bitmap_test bm (word_of_nat (unat i))" by blast
          with False show False by simp
        qed
        with f show "find_free_bit bm i = Some n" by simp
      qed
    next
      case True
      then have f: "find_free_bit bm i = find_free_bit bm (i + 1)"
        using lt by (simp add: find_free_bit_step)
      note ih = "1.IH" [OF lt] 
      have ih': "find_free_bit bm (i + 1) = Some n \<longleftrightarrow>
         i + 1 \<le> n \<and> n < AMIDB_MAX_PAGES \<and> \<not> bitmap_test bm n
         \<and> (\<forall>j. unat (i + 1) \<le> j \<and> j < unat n \<longrightarrow> bitmap_test bm (word_of_nat j))"
        using ih True by simp
      have a: "i + 1 \<le> n \<longleftrightarrow> i \<le> n \<and> n \<noteq> i"
        using ui1 by (auto simp: word_le_nat_alt word_unat_eq_iff)
      have b: "(\<forall>j. unat (i + 1) \<le> j \<and> j < unat n \<longrightarrow> bitmap_test bm (word_of_nat j))
           \<longleftrightarrow> (\<forall>j. unat i \<le> j \<and> j < unat n \<longrightarrow> bitmap_test bm (word_of_nat j))"
      proof
        assume h: "\<forall>j. unat (i + 1) \<le> j \<and> j < unat n \<longrightarrow> bitmap_test bm (word_of_nat j)"
        show "\<forall>j. unat i \<le> j \<and> j < unat n \<longrightarrow> bitmap_test bm (word_of_nat j)"
        proof (intro allI impI)
          fix j assume j: "unat i \<le> j \<and> j < unat n"
          show "bitmap_test bm (word_of_nat j)"
          proof (cases "j = unat i")
            case True
            with \<open>bitmap_test bm i\<close> show ?thesis by simp
          next
            case False
            with j ui1 have "unat (i + 1) \<le> j \<and> j < unat n" by simp
            with h show ?thesis by blast
          qed
        qed
      next
        assume h: "\<forall>j. unat i \<le> j \<and> j < unat n \<longrightarrow> bitmap_test bm (word_of_nat j)"
        then show "\<forall>j. unat (i + 1) \<le> j \<and> j < unat n \<longrightarrow> bitmap_test bm (word_of_nat j)"
          using ui1 by simp
      qed
      have c: "n \<noteq> i" if "\<not> bitmap_test bm n" using that True by auto
      show ?thesis unfolding f ih' a b using c by blast
    qed
  qed
qed

lemma find_free_bit_lowest_clear: "find_free_bit bm 1 = Some n \<longleftrightarrow> lowest_clear bm n"
  by (auto simp: find_free_bit_Some lowest_clear_def list_all_iff)

lemma pager_allocate_page_success:
  assumes "pager_allocate_page p = (0, n, p')"
  shows "\<not> read_only p" and "find_free_bit (bitmap p) 1 = Some n"
    and "bitmap p' = bitmap_set (bitmap p) n"
  using assms
  by (auto simp: pager_allocate_page_def Let_def split_def split: if_splits option.splits)

text \<open>
  C7 (amended). \<^verbatim>\<open>pager_allocate_page\<close> returns the lowest page number from 1 on whose
  bitmap bit is clear, and sets that bit: a successful call has returned this page, and
  on a writable pager with a working device (and a bitmap that fits into page 0) the
  call succeeds with this page whenever there is one. The WAL region plays no part in
  the choice, so a page of the WAL region (pages 3 to 34) is handed out as soon as it is
  the lowest clear bit.
\<close>

theorem pager_allocate_page_lowest_clear:
  "(pager_allocate_page p = (0, n, p') \<longrightarrow>
      \<not> read_only p \<and> lowest_clear (bitmap p) n \<and> bitmap p' = bitmap_set (bitmap p) n)
   \<and> (\<not> read_only p \<and> f_faults (file_handle p) = [] \<and> bitmap_size p \<le> 4032
        \<and> lowest_clear (bitmap p) n \<longrightarrow>
      fst (pager_allocate_page p) = 0 \<and> fst (snd (pager_allocate_page p)) = n)"
proof (rule conjI; rule impI)
  assume a: "pager_allocate_page p = (0, n, p')"
  from pager_allocate_page_success [OF a]
  show "\<not> read_only p \<and> lowest_clear (bitmap p) n \<and> bitmap p' = bitmap_set (bitmap p) n"
    by (simp add: find_free_bit_lowest_clear)
next
  assume h: "\<not> read_only p \<and> f_faults (file_handle p) = [] \<and> bitmap_size p \<le> 4032
        \<and> lowest_clear (bitmap p) n"
  then have f: "find_free_bit (bitmap p) 1 = Some n" by (simp add: find_free_bit_lowest_clear)
  from h have h1: "\<not> read_only p" and h3: "bitmap_size p \<le> 4032"
    and h4: "f_faults (file_handle p) = []" by simp_all
  from pager_allocate_page_works(1,2) [OF h1 f h3 h4]
  show "fst (pager_allocate_page p) = 0 \<and> fst (snd (pager_allocate_page p)) = n" by simp
qed

lemma upt_1_3: "[Suc 0..<3] = [1, 2]"
  by code_simp

lemma three_used_lowest_clear: "lowest_clear (bitmap three_used_pager) 3"
  by (simp add: three_used_pager_def lowest_clear_def upt_1_3 bitmap_test_def)

theorem pager_allocate_page_lowest_clear_witness:
  "\<not> read_only three_used_pager \<and> f_faults (file_handle three_used_pager) = []
   \<and> bitmap_size three_used_pager \<le> 4032 \<and> lowest_clear (bitmap three_used_pager) 3
   \<and> in_wal_region 3
   \<and> pager_allocate_page three_used_pager = (0, 3, snd (snd (pager_allocate_page three_used_pager)))
   \<and> bitmap (snd (snd (pager_allocate_page three_used_pager))) = bitmap_set (bitmap three_used_pager) 3"
proof -
  have h: "\<not> read_only three_used_pager" "f_faults (file_handle three_used_pager) = []"
    "bitmap_size three_used_pager \<le> 4032"
    by (simp_all add: three_used_pager_def demo_pager_def plain_file_def)
  note t = pager_allocate_page_lowest_clear
    [of three_used_pager 3 "snd (snd (pager_allocate_page three_used_pager))"]
  from t h three_used_lowest_clear
  have r: "fst (pager_allocate_page three_used_pager) = 0"
    "fst (snd (pager_allocate_page three_used_pager)) = 3" by blast+
  then have e: "pager_allocate_page three_used_pager
                  = (0, 3, snd (snd (pager_allocate_page three_used_pager)))"
    by (cases "pager_allocate_page three_used_pager") simp
  with t have b: "bitmap (snd (snd (pager_allocate_page three_used_pager)))
                    = bitmap_set (bitmap three_used_pager) 3" by blast
  have w: "in_wal_region 3" by (simp add: in_wal_region_def)
  from h three_used_lowest_clear w e b show ?thesis by (intro conjI)
qed

text \<open>
  C7 as stated fails on a writable pager with pages 0 and 1 in use and a working device:
  the next two calls of \<^verbatim>\<open>pager_allocate_page\<close> succeed and return pages 2 and 3, and
  page 3 is the first page of the WAL region. Nothing in the allocator or in the bitmap
  reserves pages 3 to 34.
\<close>

theorem pager_allocates_wal_page:
  "(case pager_allocate_page demo_pager of
      (rc1, n1, p1) \<Rightarrow>
        (case pager_allocate_page p1 of
           (rc2, n2, p2) \<Rightarrow> rc1 = 0 \<and> n1 = 2 \<and> rc2 = 0 \<and> n2 = 3 \<and> in_wal_region n2))"
proof -
  obtain rc1 n1 p1 where a1: "pager_allocate_page demo_pager = (rc1, n1, p1)"
    by (cases "pager_allocate_page demo_pager") auto
  obtain rc2 n2 p2 where a2: "pager_allocate_page p1 = (rc2, n2, p2)"
    by (cases "pager_allocate_page p1") auto
  have d: "\<not> read_only demo_pager" "find_free_bit (bitmap demo_pager) 1 = Some 2"
    "bitmap_size demo_pager \<le> 4032" "f_faults (file_handle demo_pager) = []"
    by (simp_all add: demo_pager_def find_demo_1 plain_file_def)
  note w1 = pager_allocate_page_works [OF d, unfolded a1, simplified]
  have d2: "\<not> read_only p1" "find_free_bit (bitmap p1) 1 = Some 3"
    "bitmap_size p1 \<le> 4032" "f_faults (file_handle p1) = []"
    using w1 by (simp_all add: demo_pager_def set_demo find_demo_2)
  note w2 = pager_allocate_page_works [OF d2, unfolded a2, simplified]
  have "in_wal_region 3" by (simp add: in_wal_region_def)
  with w1 w2 show ?thesis by (simp add: a1 a2)
qed

subsection \<open>Opening a file that is no database\<close>

lemma get_u32_take: "4 \<le> n \<Longrightarrow> get_u32 (take n xs) = get_u32 xs"
  by (simp add: get_u32_def)

lemma pager_open_ro_wrong_magic:
  assumes "f_pos f = 0" and "wrong_magic f"
  shows "pager_open fuel bo junk (Some f) True
           = Done (- 1, None, Some (snd (snd (file_read f AMIDB_PAGE_SIZE))))"
    and "f_bytes (snd (snd (file_read f AMIDB_PAGE_SIZE))) = f_bytes f"
proof -
  obtain rc buf f2 where r: "file_read f AMIDB_PAGE_SIZE = (rc, buf, f2)"
    by (cases "file_read f AMIDB_PAGE_SIZE") auto
  have m: "magic (deserialize_header buf) \<noteq> AMIDB_MAGIC" if "rc = int AMIDB_PAGE_SIZE"
  proof -
    from that r assms(1) have b: "buf = take 4096 (f_bytes f)" and l: "length (f_bytes f) \<ge> 4096"
      by (auto simp: file_read_def slice_def Let_def split: if_splits)
    from l assms(2) have "get_u32 (f_bytes f) \<noteq> AMIDB_MAGIC"
      by (simp add: wrong_magic_def)
    then show ?thesis
      by (simp add: deserialize_header_def b get_u32_take)
  qed
  have "open_header False True f = Inl f2"
    using m by (auto simp: open_header_def r)
  then show "pager_open fuel bo junk (Some f) True
           = Done (- 1, None, Some (snd (snd (file_read f AMIDB_PAGE_SIZE))))"
    by (simp add: pager_open_def open_probe_def r)
  show "f_bytes (snd (snd (file_read f AMIDB_PAGE_SIZE))) = f_bytes f"
    by (simp add: file_read_def Let_def file_tick_def)
qed

lemma extend_file_no_faults: "f_faults f = [] \<Longrightarrow> f_faults (extend_file n f) = []"
  by (induction n arbitrary: f)
     (simp_all add: file_write_def file_fault_def file_tick_def Let_def)

lemma take_write_at_0: "n \<le> length xs \<Longrightarrow> take n (write_at b 0 xs) = take n xs"
  by (simp add: write_at_def)

lemma take_64_header_page:
  "bitmap_size p \<le> 4032 \<Longrightarrow> take 64 (header_page p) = serialize_header (header p)"
  by (simp add: header_page_def write_at_def)

lemma pager_open_rw_wrong_magic:
  assumes pos: "f_pos f = 0" and nf: "f_faults f = []" and wm: "wrong_magic f"
  shows "\<exists>p. pager_open fuel bo junk (Some f) False = Done (0, Some p, Some (file_handle p))
            \<and> header p = fresh_header
            \<and> take 64 (f_bytes (file_handle p)) = serialize_header fresh_header"
proof -
  obtain n test_buf fa where r: "file_read f 64 = (n, test_buf, fa)"
    by (cases "file_read f 64") auto
  have new: "n = 64 \<longrightarrow> get_u32 test_buf \<noteq> AMIDB_MAGIC"
  proof
    assume "n = 64"
    with r pos nf have b: "test_buf = take 64 (f_bytes f)" and l: "length (f_bytes f) \<ge> 64"
      by (auto simp: file_read_def slice_def Let_def file_fault_def split: if_splits)
    from l wm have "get_u32 (f_bytes f) \<noteq> AMIDB_MAGIC"
      by (simp add: wrong_magic_def)
    then show "get_u32 test_buf \<noteq> AMIDB_MAGIC"
      by (simp add: b get_u32_take)
  qed
  have fa: "f_faults fa = []"
    using r nf by (auto simp: file_read_def file_fault_def file_tick_def Let_def)
  define f1 where "f1 = snd (file_seek fa 0)"
  have f1: "f_faults f1 = []" "f_pos f1 = 0"
    using fa by (simp_all add: f1_def file_seek_def)
  have probe: "open_probe False f = (True, f1)"
    using new by (auto simp: open_probe_def r f1_def Let_def)
  have lhp: "length (header_page q) = AMIDB_PAGE_SIZE" if "bitmap_size q = 512" for q
    using that by (simp add: length_header_page)
  obtain p1 where hd: "open_header True False f1 = Inr p1"
    and p1: "f_faults (file_handle p1) = []" "header p1 = init_file_header" "bitmap_size p1 = 512"
    using f1 by (simp add: open_header_def file_write_def file_fault_def file_tick_def lhp)
  define p2 where "p2 = open_extend False p1"
  have p2: "f_faults (file_handle p2) = []" "header p2 = init_file_header" "bitmap_size p2 = 512"
    using p1 by (simp_all add: p2_def open_extend_def extend_file_no_faults file_seek_end_def)
  define p5 where "p5 = open_set_dirty True False p2"
  have res: "pager_open fuel bo junk (Some f) False = Done (0, Some p5, Some (file_handle p5))"
    by (simp add: pager_open_def probe hd p2_def [symmetric] p5_def [symmetric])
  have h5: "header p5 = fresh_header"
    using p2 by (simp add: p5_def open_set_dirty_def persist_header_def fresh_header_def
        init_file_header_def)
  have "take 64 (f_bytes (file_handle p5)) = serialize_header fresh_header"
    using p2
    by (simp add: p5_def open_set_dirty_def persist_header_def file_write_def file_seek_def
        file_fault_def take_write_at_0 lhp take_64_header_page fresh_header_def
        init_file_header_def)
  with h5 res show ?thesis by blast
qed


text \<open>
  C8 (amended). A file that does not start with the magic number is rejected by a
  read-only \<^verbatim>\<open>pager_open\<close>, which returns -1 and leaves the bytes of the file as they
  are. A writable open treats such a file as a new database instead: on a working
  device it succeeds, and the file then starts with a freshly initialised header that
  carries the dirty flag.
\<close>

theorem pager_open_wrong_magic:
  assumes "f_pos f = 0" and "wrong_magic f"
  shows "(\<exists>f'. pager_open fuel bo junk (Some f) True = Done (- 1, None, Some f')
              \<and> f_bytes f' = f_bytes f)
         \<and> (f_faults f = [] \<longrightarrow>
              (\<exists>p. pager_open fuel bo junk (Some f) False = Done (0, Some p, Some (file_handle p))
                   \<and> header p = fresh_header
                   \<and> take 64 (f_bytes (file_handle p)) = serialize_header fresh_header))"
  using pager_open_ro_wrong_magic [OF assms] pager_open_rw_wrong_magic [OF assms(1) _ assms(2)]
  by blast

lemma garbage_file_props:
  "f_pos garbage_file = 0" "wrong_magic garbage_file" "f_faults garbage_file = []"
  "f_bytes garbage_file \<noteq> []"
  by (simp_all add: garbage_file_def plain_file_def wrong_magic_def get_u32_def)

theorem pager_open_wrong_magic_witness:
  "f_pos garbage_file = 0 \<and> wrong_magic garbage_file \<and> f_faults garbage_file = []
   \<and> (\<exists>f'. pager_open 0 Big_Endian [] (Some garbage_file) True = Done (- 1, None, Some f')
            \<and> f_bytes f' = f_bytes garbage_file)
   \<and> (\<exists>p. pager_open 0 Big_Endian [] (Some garbage_file) False
              = Done (0, Some p, Some (file_handle p))
            \<and> header p = fresh_header)"
  using pager_open_wrong_magic [OF garbage_file_props(1,2), of 0 Big_Endian "[]"]
    garbage_file_props
  by blast

text \<open>
  C8 as stated fails in writable mode: a file of 64 bytes 0xFF is opened successfully
  and afterwards starts with the magic number.
\<close>

theorem pager_open_overwrites_garbage:
  "wrong_magic garbage_file \<and> f_bytes garbage_file \<noteq> []
   \<and> (case pager_open 0 Big_Endian [] (Some garbage_file) False of
        Done (rc, po, fo') \<Rightarrow>
          rc = 0 \<and> po \<noteq> None
          \<and> map_option (\<lambda>f. take 4 (f_bytes f)) fo' = Some [0x44, 0x69, 0x6D, 0x41]
      | _ \<Rightarrow> False)"
proof -
  obtain p where r: "pager_open 0 Big_Endian [] (Some garbage_file) False
              = Done (0, Some p, Some (file_handle p))"
    and t: "take 64 (f_bytes (file_handle p)) = serialize_header fresh_header"
    using pager_open_rw_wrong_magic [OF garbage_file_props(1,3,2), of 0 Big_Endian "[]"]
    by blast
  have "take 4 (take 64 (f_bytes (file_handle p))) = [0x44, 0x69, 0x6D, 0x41]"
    unfolding t
    by (simp add: serialize_header_def fresh_header_def init_file_header_def put_u32_def)
  then have "take 4 (f_bytes (file_handle p)) = [0x44, 0x69, 0x6D, 0x41]"
    by simp
  then show ?thesis
    using garbage_file_props by (simp add: r)
qed

subsection \<open>Recovery\<close>

lemma xor_1_neq: "(x :: u32) XOR 1 \<noteq> x"
proof
  assume "x XOR 1 = x"
  then have "(x XOR 1) XOR x = x XOR x" by simp
  then show False by (simp add: word_bw_comms word_bw_lcs)
qed

lemma length_page_payload [simp]: "length (page_payload bo) = 4100"
  by (simp add: page_payload_def)

lemma length_commit_record [simp]: "length (commit_record bo) = 24"
  by (simp add: commit_record_def)

lemma length_bad_region [simp]: "length (bad_region bo) = 131072"
  by (simp add: bad_region_def)

lemma commit_record_verifies:
  "wal_verify_checksum bo (commit_record bo @ rest) 24"
  using wal_verify_built [of 0 "[]" "built_header bo rec_wal WAL_COMMIT None 0" bo rest]
  by (simp add: commit_record_def built_header_def payload_bytes_def header_bytes_def)

lemma bad_page_fails:
  "\<not> wal_verify_checksum bo (header_bytes bo (bad_page_header bo) @ page_payload bo @ rest) 4124"
proof -
  note p = parse_header_bytes [where rest = "[]", simplified]
  have t: "take 20 (header_bytes bo (bad_page_header bo))
            = take 20 (header_bytes bo
                \<lparr>h_magic = WAL_MAGIC, h_record_type = WAL_PAGE, h_flags = 0,
                 h_record_size = 24 + 4100, h_txn_id = current_txn_id rec_wal, h_checksum = 0\<rparr>)"
    by (simp add: bad_page_header_def built_header_def header_bytes_def)
  have s: "h_record_size (bad_page_header bo) - 24 = 4100"
    by (simp add: bad_page_header_def built_header_def)
  have c: "h_checksum (bad_page_header bo)
      = crc32_update (crc32_update 0 (take 20 (header_bytes bo (bad_page_header bo))))
          (page_payload bo) XOR 1"
    unfolding t by (simp add: bad_page_header_def built_header_def payload_bytes_def)
  show ?thesis
    using xor_1_neq [of "crc32_update (crc32_update 0 (take 20 (header_bytes bo (bad_page_header bo)))) (page_payload bo)"]
    by (simp add: wal_verify_checksum_def Let_def p s c [symmetric])
qed

lemma slice_write_at_same: "slice (write_at b off xs) off (length xs) = xs"
  by (simp add: write_at_def slice_def)

lemma length_stamp_page: "length d \<ge> AMIDB_PAGE_SIZE \<Longrightarrow> length (stamp_page n d) = AMIDB_PAGE_SIZE"
  by (simp add: stamp_page_def Let_def length_write_at)

lemma uint_small: assumes "unat (w :: u32) < 2 ^ 31" shows "uint w < 2 ^ 31"
proof -
  have "int (unat w) < int (2 ^ 31)" using assms by (simp only: of_nat_less_iff)
  then show ?thesis by (simp only: uint_nat) simp
qed
lemma sint_nonneg_small:
  assumes "unat (w :: u32) < 2 ^ 31" shows "\<not> sint w < 0"
proof -
  have u: "uint w < 2 ^ 31" using assms by (rule uint_small)
  have z: "0 \<le> uint w" by simp
  have "signed_take_bit (31 :: nat) (uint w) = uint w"
  proof (rule signed_take_bit_int_eq_self)
    have "- (2 ^ 31) \<le> (0 :: int)" by simp
    then show "- (2 ^ 31) \<le> uint w" using z by (rule order_trans)
    show "uint w < 2 ^ 31" by (rule u)
  qed
  then have "sint w = uint w"
    by (simp add: sint_uint)
  then show ?thesis using z by linarith
qed

lemma page_offset:
  assumes "n < AMIDB_MAX_PAGES"
  shows "unat (n * 4096) = unat n * 4096" and "\<not> sint (n * 4096) < 0"
proof -
  have u: "unat n < 4096" using assms by (simp add: word_less_nat_alt)
  then show m: "unat (n * 4096) = unat n * 4096"
    by (simp add: unat_word_ariths)
  show "\<not> sint (n * 4096) < 0"
    by (rule sint_nonneg_small) (use u m in simp)
qed

lemma pager_write_page_ok:
  assumes "\<not> read_only p" and "n < AMIDB_MAX_PAGES" and "length d \<ge> AMIDB_PAGE_SIZE"
    and "f_faults (file_handle p) = []"
  shows "fst (pager_write_page p n d) = 0"
    and "slice (f_bytes (file_handle (snd (pager_write_page p n d)))) (unat n * AMIDB_PAGE_SIZE)
           AMIDB_PAGE_SIZE = stamp_page n d"
    and "f_faults (file_handle (snd (pager_write_page p n d))) = []"
    and "read_only (snd (pager_write_page p n d)) = read_only p"
    and "header (snd (pager_write_page p n d)) = header p"
proof -
  note o = page_offset [OF assms(2)]
  have nn: "\<not> AMIDB_MAX_PAGES \<le> n" using assms(2) by simp
  note l = length_stamp_page [OF assms(3), of n]
  note defs = pager_write_page_def assms(1,4) nn file_seek_def file_write_def file_fault_def
    file_tick_def o l Let_def
  show "fst (pager_write_page p n d) = 0" by (simp add: defs)
  show "slice (f_bytes (file_handle (snd (pager_write_page p n d)))) (unat n * AMIDB_PAGE_SIZE)
           AMIDB_PAGE_SIZE = stamp_page n d"
    using slice_write_at_same [of "f_bytes (file_handle p)" "unat n * 4096" "stamp_page n d"]
    by (simp add: defs)
  show "f_faults (file_handle (snd (pager_write_page p n d))) = []" by (simp add: defs)
  show "read_only (snd (pager_write_page p n d)) = read_only p" by (simp add: defs)
  show "header (snd (pager_write_page p n d)) = header p" by (simp add: defs)
qed

lemma bad_region_parts:
  "slice (bad_region bo) 0 24 = commit_record bo"
  "slice (bad_region bo) 24 24 = header_bytes bo (bad_page_header bo)"
  "drop 24 (bad_region bo)
     = header_bytes bo (bad_page_header bo) @ page_payload bo @ replicate (131072 - 24 - 4124) 0"
  "slice (bad_region bo) 48 4 = native_bytes bo 4 (40 :: u32)"
  "slice (bad_region bo) 52 AMIDB_PAGE_SIZE = replicate AMIDB_PAGE_SIZE 0xAB"
  by (simp_all add: bad_region_def slice_def page_payload_def)

lemma commit_header_fields:
  "h_magic (built_header bo rec_wal WAL_COMMIT None 0) = WAL_MAGIC"
  "h_record_size (built_header bo rec_wal WAL_COMMIT None 0) = 24"
  "h_record_type (built_header bo rec_wal WAL_COMMIT None 0) = WAL_COMMIT"
  "h_txn_id (built_header bo rec_wal WAL_COMMIT None 0) = 1"
  by (simp_all add: built_header_def rec_wal_def)

lemma bad_header_fields:
  "h_magic (bad_page_header bo) = WAL_MAGIC"
  "h_record_size (bad_page_header bo) = 4124"
  "h_record_type (bad_page_header bo) = WAL_PAGE"
  "h_txn_id (bad_page_header bo) = 1"
  by (simp_all add: bad_page_header_def built_header_def rec_wal_def)

lemma parse_commit_record:
  "parse_header bo (commit_record bo) = built_header bo rec_wal WAL_COMMIT None 0"
  by (simp add: commit_record_def parse_header_bytes [where rest = "[]", simplified])

lemma pass1_bad_region:
  "recover_pass1 (Suc (Suc n)) bo (bad_region bo) 4148 0 [] = Done [1]"
proof -
  have v1: "wal_verify_checksum bo (bad_region bo) 24"
    unfolding bad_region_def by (rule commit_record_verifies)
  have s1: "recover_pass1 (Suc (Suc n)) bo (bad_region bo) 4148 0 []
              = recover_pass1 (Suc n) bo (bad_region bo) 4148 24 [1]"
    by (simp add: bad_region_parts parse_commit_record commit_header_fields v1 Let_def)
  have s2: "recover_pass1 (Suc n) bo (bad_region bo) 4148 24 [1] = Done [1]"
    by (simp add: bad_region_parts parse_header_bytes [where rest = "[]", simplified]
        bad_header_fields bad_page_fails Let_def)
  show ?thesis by (simp only: s1 s2)
qed

lemma pass2_bad_region:
  assumes "\<not> read_only p" and "f_faults (file_handle p) = []"
  shows "recover_pass2 (Suc (Suc (Suc n))) bo (bad_region bo) 4148 0 [1] p
           = Done (0, snd (pager_write_page p 40 (replicate AMIDB_PAGE_SIZE 0xAB)))"
proof -
  have s1: "recover_pass2 (Suc (Suc (Suc n))) bo (bad_region bo) 4148 0 [1] p
              = recover_pass2 (Suc (Suc n)) bo (bad_region bo) 4148 24 [1] p"
    by (simp add: bad_region_parts parse_commit_record commit_header_fields Let_def)
  have w: "fst (pager_write_page p 40 (replicate AMIDB_PAGE_SIZE 0xAB)) = 0"
    by (rule pager_write_page_ok) (use assms in simp_all)
  have s2: "recover_pass2 (Suc (Suc n)) bo (bad_region bo) 4148 24 [1] p
              = recover_pass2 (Suc n) bo (bad_region bo) 4148 4148
                  [1] (snd (pager_write_page p 40 (replicate AMIDB_PAGE_SIZE 0xAB)))"
    using w
    by (simp add: bad_region_parts parse_header_bytes [where rest = "[]", simplified]
        bad_header_fields Let_def split_def)
  have s3: "recover_pass2 (Suc n) bo (bad_region bo) 4148 4148 [1] q = Done (0, q)" for q
    by simp
  show ?thesis by (simp only: s1 s2 s3)
qed

lemma read_bad_region:
  "file_read (snd (file_seek (file_handle (crashed_pager bo)) WAL_REGION_START)) 131072
   = (131072, bad_region bo,
      (file_handle (crashed_pager bo))\<lparr>f_pos := 143360\<rparr>)"
  by (simp add: crashed_pager_def plain_file_def file_seek_def file_read_def file_fault_def
      file_tick_def slice_def Let_def)

text \<open>
  C2 on that region with \<^verbatim>\<open>wal_head = 4148\<close>. The PAGE record fails
  \<^verbatim>\<open>wal_verify_checksum\<close>, so pass 1 stops in front of it, having collected transaction 1.
  Pass 2 checks the magic only: it walks past the point where pass 1 stopped and
  writes the image of the unverified record to page 40.
\<close>

theorem recovery_replays_unverified_page:
  "\<not> wal_verify_checksum Big_Endian
        (header_bytes Big_Endian (bad_page_header Big_Endian) @ page_payload Big_Endian) 4124
   \<and> recover_pass1 3 Big_Endian (bad_region Big_Endian) 4148 0 [] = Done [1]
   \<and> (case wal_recover 3 Big_Endian [] (wal_create\<lparr>w_wal_head := 4148\<rparr>)
              (crashed_pager Big_Endian) of
        Done (rc, w, p) \<Rightarrow>
          rc = 0 \<and> slice (f_bytes (file_handle p)) (40 * AMIDB_PAGE_SIZE) AMIDB_PAGE_SIZE
                     = stamp_page 40 (replicate AMIDB_PAGE_SIZE 0xAB)
      | _ \<Rightarrow> False)"
proof -
  let ?bo = Big_Endian
  have three: "(3 :: nat) = Suc (Suc (Suc 0))" by simp
  have a: "\<not> wal_verify_checksum ?bo (header_bytes ?bo (bad_page_header ?bo) @ page_payload ?bo) 4124"
    using bad_page_fails [of ?bo "[]"] by simp
  have b: "recover_pass1 3 ?bo (bad_region ?bo) 4148 0 [] = Done [1]"
    unfolding three by (rule pass1_bad_region)
  define p1 where "p1 = (crashed_pager ?bo)
      \<lparr>file_handle := (file_handle (crashed_pager ?bo))\<lparr>f_pos := 143360\<rparr>\<rparr>"
  have p1: "\<not> read_only p1" "f_faults (file_handle p1) = []"
    by (simp_all add: p1_def crashed_pager_def plain_file_def)
  have c: "recover_pass2 3 ?bo (bad_region ?bo) 4148 0 [1] p1
           = Done (0, snd (pager_write_page p1 40 (replicate AMIDB_PAGE_SIZE 0xAB)))"
    unfolding three by (rule pass2_bad_region [OF p1])
  have sk: "fst (file_seek (file_handle (crashed_pager ?bo)) WAL_REGION_START) = 0"
    by (simp add: file_seek_def)
  have r: "wal_recover 3 ?bo [] (wal_create\<lparr>w_wal_head := 4148\<rparr>) (crashed_pager ?bo)
        = Done (0, wal_create\<lparr>w_wal_head := 4148\<rparr>\<lparr>w_wal_head := 0, w_wal_tail := 0, buffer_used := 0\<rparr>,
                snd (pager_write_page p1 40 (replicate AMIDB_PAGE_SIZE 0xAB)))"
    using sk
    by (simp add: wal_recover_def split_def read_bad_region Let_def b p1_def [symmetric] c)
  have w: "slice (f_bytes (file_handle (snd (pager_write_page p1 40 (replicate AMIDB_PAGE_SIZE 0xAB)))))
             (unat (40 :: u32) * AMIDB_PAGE_SIZE) AMIDB_PAGE_SIZE
           = stamp_page 40 (replicate AMIDB_PAGE_SIZE 0xAB)"
    by (rule pager_write_page_ok) (use p1 in simp_all)
  from a b w show ?thesis by (simp add: r)
qed

subsection \<open>What an abort restores\<close>


















































lemma cache_wf_create: "cache_wf (cache_create n)"
  by (simp add: cache_wf_def cache_create_def valid_entry_def invalid_entry_def)

end
